theory Spec2Isabelle
  imports Main "HOL-Library.AList"
begin

section \<open>JavaScript strings\<close>

text \<open>
  A JavaScript string is a sequence of UTF-16 code units; a code unit is modelled as a
  natural number, so that the Cyrillic prefix vocabulary and marker phrases of the program
  are one unit per letter, exactly as \<open>length\<close>, \<open>slice\<close> and the regular expressions of
  the source count them.

  \<open>toUpperCase\<close> and \<open>toLowerCase\<close> are modelled on the alphabet the program's own literals
  use: Basic Latin (code units below 128) and the Cyrillic block U+0400..U+045F. On strings
  over this alphabet (\<open>inAlphabet\<close>) the model is the runtime's case mapping, unit by unit;
  on other code units the runtime's mapping is not modelled, and every theorem below that
  speaks about strings it does not fix carries \<open>inAlphabet\<close> (directly, or through
  \<open>validName\<close> and \<open>wellFormedRun\<close>) as a hypothesis.
\<close>

type_synonym jsstring = "nat list"

definition asc :: "string \<Rightarrow> jsstring" where
  "asc s = map of_char s"

definition upperUnit :: "nat \<Rightarrow> nat" where
  "upperUnit c =
     (if 97 \<le> c \<and> c \<le> 122 then c - 32
      else if 1072 \<le> c \<and> c \<le> 1103 then c - 32
      else if 1104 \<le> c \<and> c \<le> 1119 then c - 80
      else c)"

definition lowerUnit :: "nat \<Rightarrow> nat" where
  "lowerUnit c =
     (if 65 \<le> c \<and> c \<le> 90 then c + 32
      else if 1040 \<le> c \<and> c \<le> 1071 then c + 32
      else if 1024 \<le> c \<and> c \<le> 1039 then c + 80
      else c)"

definition toUpperCase :: "jsstring \<Rightarrow> jsstring" where
  "toUpperCase s = map upperUnit s"

definition toLowerCase :: "jsstring \<Rightarrow> jsstring" where
  "toLowerCase s = map lowerUnit s"

definition inAlphabet :: "jsstring \<Rightarrow> bool" where
  "inAlphabet s = list_all (\<lambda>c. c < 128 \<or> (1024 \<le> c \<and> c \<le> 1119)) s"

text \<open>\<open>s.startsWith(p)\<close>, \<open>s.endsWith(p)\<close> and \<open>s.includes(p)\<close> (named \<open>includesStr\<close> here).\<close>

definition startsWith :: "jsstring \<Rightarrow> jsstring \<Rightarrow> bool" where
  "startsWith s p = (take (length p) s = p)"

definition endsWith :: "jsstring \<Rightarrow> jsstring \<Rightarrow> bool" where
  "endsWith s p = (length p \<le> length s \<and> drop (length s - length p) s = p)"

fun includesStr :: "jsstring \<Rightarrow> jsstring \<Rightarrow> bool" where
  "includesStr [] p = (p = [])"
| "includesStr (c # cs) p = (startsWith (c # cs) p \<or> includesStr cs p)"

section \<open>Character classes and primitives of the regular expressions\<close>

text \<open>
  None of the program's patterns carries the \<open>u\<close> flag, so \<open>\d\<close> is \<open>[0-9]\<close>, \<open>\w\<close> is
  \<open>[A-Za-z0-9_]\<close> (Cyrillic letters are not word characters), \<open>.\<close> excludes the four line
  terminators, and under the \<open>i\<close> flag two code units match when their upper-case forms
  agree.
\<close>

definition isDigit :: "nat \<Rightarrow> bool" where
  "isDigit c = (48 \<le> c \<and> c \<le> 57)"

definition isWordChar :: "nat \<Rightarrow> bool" where
  "isWordChar c = (isDigit c \<or> (65 \<le> c \<and> c \<le> 90) \<or> (97 \<le> c \<and> c \<le> 122) \<or> c = 95)"

definition isLineTerminator :: "nat \<Rightarrow> bool" where
  "isLineTerminator c = (c = 10 \<or> c = 13 \<or> c = 8232 \<or> c = 8233)"

definition isWhiteSpace :: "nat \<Rightarrow> bool" where
  "isWhiteSpace c =
     ((9 \<le> c \<and> c \<le> 13) \<or> c = 32 \<or> c = 160 \<or> c = 5760 \<or> (8192 \<le> c \<and> c \<le> 8202)
      \<or> c = 8232 \<or> c = 8233 \<or> c = 8239 \<or> c = 8287 \<or> c = 12288 \<or> c = 65279)"

definition prefixCI :: "jsstring \<Rightarrow> jsstring \<Rightarrow> bool" where
  \<comment> \<open>the literal \<open>p\<close> matches at the start of \<open>s\<close>, ignoring case\<close>
  "prefixCI p s = (length p \<le> length s \<and> map upperUnit (take (length p) s) = map upperUnit p)"

fun regexSearch :: "(jsstring \<Rightarrow> 'a option) \<Rightarrow> jsstring \<Rightarrow> 'a option" where
  \<comment> \<open>an unanchored pattern is tried at every position, left to right\<close>
  "regexSearch m [] = m []"
| "regexSearch m (c # cs) = (case m (c # cs) of Some r \<Rightarrow> Some r | None \<Rightarrow> regexSearch m cs)"

fun cutAt :: "(jsstring \<Rightarrow> bool) \<Rightarrow> jsstring \<Rightarrow> jsstring" where
  \<comment> \<open>\<open>s.replace(/...$/, '')\<close> for a pattern that runs to the end of the input: the string
      is cut at the leftmost position from which the rest matches\<close>
  "cutAt P [] = []"
| "cutAt P (c # cs) = (if P (c # cs) then [] else c # cutAt P cs)"

fun existsAt :: "(nat option \<Rightarrow> jsstring \<Rightarrow> bool) \<Rightarrow> nat option \<Rightarrow> jsstring \<Rightarrow> bool" where
  \<comment> \<open>\<open>regex.test(s)\<close>: some position matches; the matcher sees the preceding code unit\<close>
  "existsAt P prev [] = P prev []"
| "existsAt P prev (c # cs) = (P prev (c # cs) \<or> existsAt P (Some c) cs)"

definition numberAt :: "jsstring \<Rightarrow> jsstring option" where
  \<comment> \<open>\<open>\d+(?:\.\d+)?\<close> at the start of the input (both quantifiers greedy)\<close>
  "numberAt s =
     (let ds = takeWhile isDigit s; r = dropWhile isDigit s in
      if ds = [] then None
      else (case r of
              [] \<Rightarrow> Some ds
            | c # r' \<Rightarrow>
                if c = 46 \<and> takeWhile isDigit r' \<noteq> [] then Some (ds @ 46 # takeWhile isDigit r')
                else Some ds))"

section \<open>Node's \<open>path\<close> module (POSIX flavour)\<close>

text \<open>
  \<open>path.basename\<close>, \<open>path.dirname\<close> and \<open>path.join\<close> belong to the Node runtime, not to the
  repository; they are modelled from Node's documented algorithm with \<open>/\<close> (code unit 47)
  as the separator.
\<close>

definition isSlash :: "nat \<Rightarrow> bool" where
  "isSlash c = (c = 47)"

definition basename :: "jsstring \<Rightarrow> jsstring" where
  \<comment> \<open>trailing separators are dropped, then the part after the last separator is taken\<close>
  "basename p = rev (takeWhile (\<lambda>c. \<not> isSlash c) (dropWhile isSlash (rev p)))"

text \<open>
  \<open>path.basename(p, suffix)\<close> scans the path from its end: \<open>suffixScan\<close> is the \<open>for\<close>
  loop with \<open>i\<close> running down from the given bound, and returns \<open>start\<close>, \<open>end\<close> (here \<open>endIdx\<close>) and
  \<open>firstNonSlashEnd\<close> (\<open>None\<close> for \<open>-1\<close>; \<open>extIdx\<close> likewise).
\<close>

fun suffixScan ::
  "jsstring \<Rightarrow> jsstring \<Rightarrow> nat \<Rightarrow> bool \<Rightarrow> nat option \<Rightarrow> nat option \<Rightarrow> nat option
     \<Rightarrow> nat \<times> nat option \<times> nat option" where
  "suffixScan p suffix 0 matchedSlash extIdx firstNonSlashEnd endIdx = (0, endIdx, firstNonSlashEnd)"
| "suffixScan p suffix (Suc i) matchedSlash extIdx firstNonSlashEnd endIdx =
     (if isSlash (p ! i) then
        (if \<not> matchedSlash then (i + 1, endIdx, firstNonSlashEnd)
         else suffixScan p suffix i matchedSlash extIdx firstNonSlashEnd endIdx)
      else
        (let fnse = (case firstNonSlashEnd of None \<Rightarrow> Some (i + 1) | Some v \<Rightarrow> Some v) in
         case extIdx of
           None \<Rightarrow> suffixScan p suffix i False None fnse endIdx
         | Some e \<Rightarrow>
             if p ! i = suffix ! e then
               (if e = 0 then suffixScan p suffix i False None fnse (Some i)
                else suffixScan p suffix i False (Some (e - 1)) fnse endIdx)
             else suffixScan p suffix i False None fnse fnse))"

definition basenameExt :: "jsstring \<Rightarrow> jsstring \<Rightarrow> jsstring" where
  "basenameExt p suffix =
     (if suffix \<noteq> [] \<and> length suffix \<le> length p then
        (if suffix = p then []
         else (case suffixScan p suffix (length p) True (Some (length suffix - 1)) None None of
                 (start, endIdx, firstNonSlashEnd) \<Rightarrow>
                   (let endIdx' = (if endIdx = Some start then firstNonSlashEnd
                                else if endIdx = None then Some (length p) else endIdx) in
                    case endIdx' of
                      None \<Rightarrow> take (length p - 1 - start) (drop start p)
                    | Some e \<Rightarrow> take (e - start) (drop start p))))
      else basename p)"

definition dirname :: "jsstring \<Rightarrow> jsstring" where
  "dirname p =
     (case p of
        [] \<Rightarrow> [46]
      | c # cs \<Rightarrow>
          (let r = dropWhile (\<lambda>x. \<not> isSlash x) (dropWhile isSlash (rev cs)) in
           if r = [] then (if isSlash c then [47] else [46])
           else if isSlash c \<and> length r = 1 then [47, 47]
           else take (length r) p))"

fun splitSlash :: "jsstring \<Rightarrow> jsstring list" where
  "splitSlash [] = [[]]"
| "splitSlash (c # cs) =
     (if isSlash c then [] # splitSlash cs
      else (case splitSlash cs of [] \<Rightarrow> [[c]] | seg # segs \<Rightarrow> (c # seg) # segs))"

definition normStep :: "bool \<Rightarrow> jsstring list \<Rightarrow> jsstring \<Rightarrow> jsstring list" where
  \<comment> \<open>one path segment of \<open>normalizeString\<close>: empty and \<open>.\<close> segments vanish, \<open>..\<close> removes
      the segment before it (or stays, above the root of a relative path)\<close>
  "normStep allowAboveRoot st seg =
     (if seg = [] \<or> seg = [46] then st
      else if seg = [46, 46] then
        (if st \<noteq> [] \<and> last st \<noteq> [46, 46] then butlast st
         else if allowAboveRoot then st @ [[46, 46]] else st)
      else st @ [seg])"

fun joinSlash :: "jsstring list \<Rightarrow> jsstring" where
  "joinSlash [] = []"
| "joinSlash [x] = x"
| "joinSlash (x # y # ys) = x @ 47 # joinSlash (y # ys)"

definition normalizeString :: "jsstring \<Rightarrow> bool \<Rightarrow> jsstring" where
  "normalizeString p allowAboveRoot = joinSlash (foldl (normStep allowAboveRoot) [] (splitSlash p))"

definition normalize :: "jsstring \<Rightarrow> jsstring" where
  "normalize p =
     (if p = [] then [46]
      else (let isAbsolute = isSlash (hd p);
                trailingSeparator = isSlash (last p);
                q = normalizeString p (\<not> isAbsolute) in
            if q = [] then (if isAbsolute then [47] else if trailingSeparator then [46, 47] else [46])
            else (let q' = (if trailingSeparator then q @ [47] else q) in
                  if isAbsolute then 47 # q' else q')))"

definition pathJoin :: "jsstring \<Rightarrow> jsstring \<Rightarrow> jsstring" where
  \<comment> \<open>\<open>path.join(a, b)\<close>: empty arguments are skipped, the rest is joined by \<open>/\<close> and normalised\<close>
  "pathJoin a b =
     (let joined = (if a = [] then b else if b = [] then a else a @ 47 # b) in
      if joined = [] then [46] else normalize joined)"

section \<open>fs-utils: the processed marker\<close>

text \<open>
  \<open>fileMarkedProcessed\<close> tests the name against
  \<^verbatim>\<open>/(\(.*?(A|B|with notification).*?\)|\bA\b|\bB\b|\bwith notification\b|\bC\b|\bprocessed\b)/i\<close>
  where \<open>A\<close>, \<open>B\<close> and \<open>C\<close> stand for three Cyrillic phrases of the source, given below by
  their code units: \<open>A\<close> is \<open>phrase_s_uved\<close> (U+0441 U+0020 U+0443 U+0432 U+0435 U+0434),
  \<open>B\<close> is \<open>phrase_s_uvedoml\<close> (\<open>A\<close> followed by U+043E U+043C U+043B) and \<open>C\<close> is
  \<open>phrase_obedinen\<close>.
\<close>

definition phrase_s_uved :: jsstring where
  "phrase_s_uved = [1089, 32, 1091, 1074, 1077, 1076]"

definition phrase_s_uvedoml :: jsstring where
  "phrase_s_uvedoml = [1089, 32, 1091, 1074, 1077, 1076, 1086, 1084, 1083]"

definition phrase_with_notification :: jsstring where
  "phrase_with_notification = asc ''with notification''"

definition phrase_obedinen :: jsstring where
  "phrase_obedinen = [1086, 1073, 1098, 1077, 1076, 1080, 1085, 1077, 1085]"

definition phrase_processed :: jsstring where
  "phrase_processed = asc ''processed''"

definition wordBoundary :: "nat option \<Rightarrow> nat option \<Rightarrow> bool" where
  \<comment> \<open>\<open>\b\<close>: exactly one of the two neighbours is a word character\<close>
  "wordBoundary a b =
     ((case a of None \<Rightarrow> False | Some c \<Rightarrow> isWordChar c) \<noteq> (case b of None \<Rightarrow> False | Some c \<Rightarrow> isWordChar c))"

definition headOpt :: "jsstring \<Rightarrow> nat option" where
  "headOpt s = (case s of [] \<Rightarrow> None | c # _ \<Rightarrow> Some c)"

definition boundedPhraseAt :: "jsstring \<Rightarrow> nat option \<Rightarrow> jsstring \<Rightarrow> bool" where
  \<comment> \<open>\<open>\bPHRASE\b\<close> at this position (the phrase is not empty)\<close>
  "boundedPhraseAt ph prev s =
     (prefixCI ph s \<and> wordBoundary prev (headOpt s)
      \<and> wordBoundary (headOpt (drop (length ph - 1) s)) (headOpt (drop (length ph) s)))"

fun phraseThenParen :: "jsstring \<Rightarrow> bool" where
  \<comment> \<open>\<open>.*?(A|B|with notification).*?\)\<close> inside one line\<close>
  "phraseThenParen [] = False"
| "phraseThenParen (c # cs) =
     ((prefixCI phrase_s_uved (c # cs) \<and> 41 \<in> set (drop (length phrase_s_uved) (c # cs)))
      \<or> (prefixCI phrase_s_uvedoml (c # cs) \<and> 41 \<in> set (drop (length phrase_s_uvedoml) (c # cs)))
      \<or> (prefixCI phrase_with_notification (c # cs)
            \<and> 41 \<in> set (drop (length phrase_with_notification) (c # cs)))
      \<or> phraseThenParen cs)"

definition parenMarkerAt :: "jsstring \<Rightarrow> bool" where
  "parenMarkerAt s =
     (case s of [] \<Rightarrow> False
      | c # cs \<Rightarrow> c = 40 \<and> phraseThenParen (takeWhile (\<lambda>x. \<not> isLineTerminator x) cs))"

definition markerAt :: "nat option \<Rightarrow> jsstring \<Rightarrow> bool" where
  "markerAt prev s =
     (parenMarkerAt s
      \<or> boundedPhraseAt phrase_s_uved prev s
      \<or> boundedPhraseAt phrase_s_uvedoml prev s
      \<or> boundedPhraseAt phrase_with_notification prev s
      \<or> boundedPhraseAt phrase_obedinen prev s
      \<or> boundedPhraseAt phrase_processed prev s)"

definition fileMarkedProcessed :: "jsstring \<Rightarrow> bool" where
  "fileMarkedProcessed name = existsAt markerAt None name"

section \<open>merge-service: code extraction and canonical codes\<close>

definition PREFIXES :: "jsstring list" where
  \<comment> \<open>the eleven Cyrillic prefixes of the source, in its order; in Latin transliteration
      SK, UA, SPPK, SPD, RVS, PU, P, GZU, PTP, TTP, NA (U+041F is P, U+0422 is T)\<close>
  "PREFIXES =
     [[1057, 1050], [1059, 1040], [1057, 1055, 1055, 1050], [1057, 1055, 1044],
      [1056, 1042, 1057], [1055, 1059], [1055], [1043, 1047, 1059],
      [1055, 1058, 1055], [1058, 1058, 1055], [1053, 1040]]"

definition codeTailAt :: "jsstring \<Rightarrow> jsstring option" where
  \<comment> \<open>\<open>-\d+(?:\.\d+)?\<close> at the start of the input\<close>
  "codeTailAt s =
     (case s of [] \<Rightarrow> None
      | c # r \<Rightarrow> if c = 45 then map_option ((#) 45) (numberAt r) else None)"

fun matchCodeAt :: "jsstring list \<Rightarrow> jsstring \<Rightarrow> jsstring option" where
  \<comment> \<open>the alternation \<open>(P1|P2|...)\<close> followed by the tail: alternatives in list order, the
      next one is tried when the tail fails after the current one\<close>
  "matchCodeAt [] s = None"
| "matchCodeAt (p # ps) s =
     (if prefixCI p s then
        (case codeTailAt (drop (length p) s) of
           Some t \<Rightarrow> Some (take (length p) s @ t)
         | None \<Rightarrow> matchCodeAt ps s)
      else matchCodeAt ps s)"

definition CODE_REGEX :: "jsstring \<Rightarrow> jsstring option" where
  \<comment> \<open>\<open>s.match(CODE_REGEX)\<close>: the matched text \<open>m[0]\<close>, or \<open>None\<close> for \<open>null\<close>\<close>
  "CODE_REGEX s = regexSearch (matchCodeAt PREFIXES) s"

definition extractNotificationCode :: "jsstring \<Rightarrow> jsstring option" where
  "extractNotificationCode fullPath =
     (let filename = basename fullPath;
          foldername = basename (dirname fullPath) in
      case CODE_REGEX filename of
        Some m \<Rightarrow> Some (toUpperCase m)
      | None \<Rightarrow>
          (case find (\<lambda>p. includesStr (toUpperCase foldername) p) PREFIXES of
             None \<Rightarrow> None
           | Some folderPrefix \<Rightarrow>
               (case regexSearch numberAt filename of
                  None \<Rightarrow> None
                | Some nm \<Rightarrow> Some (toUpperCase (folderPrefix @ 45 # nm)))))"

definition extractZepbCode :: "jsstring \<Rightarrow> jsstring option" where
  "extractZepbCode filename = map_option toUpperCase (CODE_REGEX filename)"

definition subVersionAt :: "jsstring \<Rightarrow> bool" where
  \<comment> \<open>\<open>\.\d{1,4}$\<close> at this position\<close>
  "subVersionAt s =
     (case s of [] \<Rightarrow> False
      | c # ds \<Rightarrow> c = 46 \<and> ds \<noteq> [] \<and> length ds \<le> 4 \<and> list_all isDigit ds)"

definition canonicalCode :: "jsstring option \<Rightarrow> jsstring option" where
  "canonicalCode raw =
     (case raw of
        None \<Rightarrow> None
      | Some r \<Rightarrow> if r = [] then None else Some (toUpperCase (cutAt subVersionAt r)))"

section \<open>merge-service: scanning a folder into a dictionary\<close>

text \<open>
  A \<open>Record<string, string>\<close> used as a dictionary is an association list in insertion
  order, which is the order \<open>Object.keys\<close> enumerates keys that are not array indices (a
  canonical code from the two extractors always carries a prefix letter and \<open>-\<close>).
  \<open>AList.update\<close> overwrites the value of a present key in place and appends a new key at
  the end, as assignment to \<open>dict[code]\<close> does. The test \<open>if (dict[code])\<close> is true for a
  present key with a value other than the empty string.
\<close>

type_synonym dict = "(jsstring \<times> jsstring) list"

definition dictTruthy :: "dict \<Rightarrow> jsstring \<Rightarrow> bool" where
  "dictTruthy d k = (case map_of d k of None \<Rightarrow> False | Some v \<Rightarrow> v \<noteq> [])"

text \<open>
  What \<open>readdir(dir, {withFileTypes: true})\<close> yields, with the listing of every
  sub-directory attached to its entry; \<open>None\<close> is a directory whose \<open>readdir\<close> throws.
  \<open>OtherEnt\<close> is an entry that is neither a regular file nor a directory. \<open>stat\<close> answers
  with the modification time \<open>mtimeMs\<close> or fails (\<open>None\<close>).
\<close>

datatype dirent = FileEnt jsstring | DirEnt jsstring "dirent list option" | OtherEnt jsstring

definition folder_otkazy :: jsstring where
  "folder_otkazy = [1086, 1090, 1082, 1072, 1079, 1099]"

definition isRejectsFolder :: "jsstring \<Rightarrow> bool" where
  \<comment> \<open>\<^verbatim>\<open>/^X$/i.test(name)\<close> for the six-letter Cyrillic folder name \<open>X\<close> = \<open>folder_otkazy\<close>\<close>
  "isRejectsFolder name = (map upperUnit name = map upperUnit folder_otkazy)"

definition codeFor ::
  "(jsstring \<Rightarrow> jsstring \<Rightarrow> bool) \<Rightarrow> (jsstring \<Rightarrow> jsstring option) \<Rightarrow> jsstring \<Rightarrow> jsstring \<Rightarrow> jsstring option" where
  \<comment> \<open>the first half of the loop body for a regular file \<open>name\<close> with path \<open>full\<close>: the
      filter, the marker test, the raw code and its canonical form; \<open>None\<close> is \<open>continue\<close>\<close>
  "codeFor fileFilter extractCode full name =
     (if \<not> fileFilter full name then None
      else if fileMarkedProcessed name then None
      else (case extractCode name of
              None \<Rightarrow> None
            | Some rawCode \<Rightarrow>
                if rawCode = [] then None
                else (case canonicalCode (Some rawCode) of
                        None \<Rightarrow> None
                      | Some code \<Rightarrow> if code = [] then None else Some code)))"

definition insertCode :: "(jsstring \<Rightarrow> ('t::linorder) option) \<Rightarrow> jsstring \<Rightarrow> jsstring \<Rightarrow> dict \<Rightarrow> dict" where
  \<comment> \<open>the second half: on a conflict both files are \<open>stat\<close>ed and the new one replaces the
      old one when its \<open>mtimeMs\<close> is greater; a failing \<open>stat\<close> changes nothing\<close>
  "insertCode stat code full d =
     (if dictTruthy d code then
        (case map_of d code of
           None \<Rightarrow> d
         | Some old \<Rightarrow>
             (case stat old of
                None \<Rightarrow> d
              | Some s1 \<Rightarrow>
                  (case stat full of
                     None \<Rightarrow> d
                   | Some s2 \<Rightarrow> if s2 > s1 then AList.update code full d else d)))
      else AList.update code full d)"

definition visitFile ::
  "(jsstring \<Rightarrow> jsstring \<Rightarrow> bool) \<Rightarrow> (jsstring \<Rightarrow> jsstring option) \<Rightarrow> (jsstring \<Rightarrow> ('t::linorder) option)
     \<Rightarrow> jsstring \<Rightarrow> jsstring \<Rightarrow> dict \<Rightarrow> dict" where
  "visitFile fileFilter extractCode stat full name d =
     (case codeFor fileFilter extractCode full name of
        None \<Rightarrow> d
      | Some code \<Rightarrow> insertCode stat code full d)"

fun scanItems ::
  "bool \<Rightarrow> (jsstring \<Rightarrow> jsstring \<Rightarrow> bool) \<Rightarrow> (jsstring \<Rightarrow> jsstring option) \<Rightarrow> (jsstring \<Rightarrow> ('t::linorder) option)
     \<Rightarrow> jsstring \<Rightarrow> dirent list \<Rightarrow> dict \<Rightarrow> dict" where
  "scanItems recursive fileFilter extractCode stat dir [] d = d"
| "scanItems recursive fileFilter extractCode stat dir (FileEnt name # its) d =
     scanItems recursive fileFilter extractCode stat dir its
       (visitFile fileFilter extractCode stat (pathJoin dir name) name d)"
| "scanItems recursive fileFilter extractCode stat dir (OtherEnt name # its) d =
     scanItems recursive fileFilter extractCode stat dir its d"
| "scanItems recursive fileFilter extractCode stat dir (DirEnt name sub # its) d =
     (if isRejectsFolder name then scanItems recursive fileFilter extractCode stat dir its d
      else if recursive then
        scanItems recursive fileFilter extractCode stat dir its
          (case sub of
             None \<Rightarrow> d
           | Some items \<Rightarrow> scanItems recursive fileFilter extractCode stat (pathJoin dir name) items d)
      else scanItems recursive fileFilter extractCode stat dir its d)"

record 't filesystem =
  readdirTree :: "jsstring \<Rightarrow> dirent list option"
  statMtime :: "jsstring \<Rightarrow> 't option"

definition buildDict ::
  "('t::linorder) filesystem \<Rightarrow> jsstring \<Rightarrow> bool \<Rightarrow> (jsstring \<Rightarrow> jsstring \<Rightarrow> bool) \<Rightarrow> (jsstring \<Rightarrow> jsstring option) \<Rightarrow> dict" where
  "buildDict fs root recursive fileFilter extractCode =
     (case readdirTree fs root of
        None \<Rightarrow> []
      | Some items \<Rightarrow> scanItems recursive fileFilter extractCode (statMtime fs) root items [])"

text \<open>
  The names \<open>readdir\<close> reports are not empty, contain no separator and are neither \<open>.\<close>
  nor \<open>..\<close>; \<open>validName\<close> asks in addition that the name is over the alphabet on which the
  case mapping is modelled. A tree is valid when all its entries, at every depth, have such
  names.
\<close>

definition validName :: "jsstring \<Rightarrow> bool" where
  "validName n = (n \<noteq> [] \<and> 47 \<notin> set n \<and> n \<noteq> [46] \<and> n \<noteq> [46, 46] \<and> inAlphabet n)"

fun validEntry :: "dirent \<Rightarrow> bool" where
  "validEntry (FileEnt n) = validName n"
| "validEntry (OtherEnt n) = validName n"
| "validEntry (DirEnt n sub) =
     (validName n \<and> (case sub of None \<Rightarrow> True | Some items \<Rightarrow> list_all validEntry items))"

definition validTree :: "dirent list option \<Rightarrow> bool" where
  "validTree t = (case t of None \<Rightarrow> True | Some items \<Rightarrow> list_all validEntry items)"

text \<open>The same folder without the files whose name carries the processed marker.\<close>

fun pruneMarked :: "dirent list \<Rightarrow> dirent list" where
  "pruneMarked [] = []"
| "pruneMarked (FileEnt n # its) =
     (if fileMarkedProcessed n then pruneMarked its else FileEnt n # pruneMarked its)"
| "pruneMarked (OtherEnt n # its) = OtherEnt n # pruneMarked its"
| "pruneMarked (DirEnt n sub # its) =
     DirEnt n (case sub of None \<Rightarrow> None | Some items \<Rightarrow> Some (pruneMarked items)) # pruneMarked its"

section \<open>The merge handler\<close>

text \<open>
  A thrown JavaScript error is a value with its \<open>message\<close> and the text \<open>String(err)\<close>
  gives for it. The messages the handler writes are template literals over a few
  values; each template is a constructor carrying those values.
\<close>

datatype jserr = JsErr (message: jsstring) (asString: jsstring)

definition errText :: "jserr \<Rightarrow> jsstring" where
  \<comment> \<open>\<open>(err as Error).message || String(err)\<close>\<close>
  "errText e = (if message e \<noteq> [] then message e else asString e)"

datatype logmsg =
    CancelMsg
  | NoZepbMsg jsstring jsstring
  | AlreadyProcessedMsg jsstring
  | MergedMsg jsstring
  | MergeErrorMsg jsstring jsstring
  | RunErrorMsg jsstring

record MergeSummary =
  processed :: nat
  skipped :: nat
  errors :: "logmsg list"
  log :: "logmsg list"
  total :: nat
  canceled :: bool

record progress =
  p_processed :: nat
  p_skipped :: nat
  p_total :: nat
  p_current :: nat
  p_code :: "jsstring option"
  p_message :: logmsg

text \<open>
  The loop's variables: the summary, \<open>processedNames\<close>, the \<open>merge-progress\<close> events sent
  so far, and the calls made to the merge collaborator (notification path, ZEPB path,
  output path), kept as a trace.
\<close>

record loopState = MergeSummary +
  processedNames :: "jsstring list"
  events :: "progress list"
  mergeCalls :: "(jsstring \<times> jsstring \<times> jsstring) list"

record MergeReturn = MergeSummary +
  registry :: "jsstring option"
  unmatchedNotifications :: "(jsstring \<times> jsstring) list"
  unmatchedZepb :: "(jsstring \<times> jsstring) list"

text \<open>
  Everything outside the handler: the file system, \<open>fs.ensureDir\<close> (\<open>Some e\<close> when it
  throws), the two collaborators \<open>mergePdfFiles\<close> and \<open>createRegisterDocx\<close>, and the value
  of the module variable \<open>mergeCancelRequested\<close> that the checkpoint of iteration \<open>i\<close>
  reads (the \<open>cancel-merge\<close> handler sets it between two awaits of the loop).
\<close>

record 't world =
  fsys :: "'t filesystem"
  ensureDir :: "jsstring \<Rightarrow> jserr option"
  mergePdfFiles :: "jsstring \<Rightarrow> jsstring \<Rightarrow> jsstring \<Rightarrow> jserr option"
  createRegisterDocx :: "jsstring \<Rightarrow> jsstring list \<Rightarrow> jserr + jsstring"
  mergeCancelRequested :: "nat \<Rightarrow> bool"

definition parenMarkerTail :: "jsstring \<Rightarrow> bool" where
  \<comment> \<open>\<^verbatim>\<open>\s*\(A.*?\)\s*$\<close> at this position, ignoring case (\<open>A\<close> is \<open>phrase_s_uved\<close>)\<close>
  "parenMarkerTail s =
     (let r = dropWhile isWhiteSpace s in
      prefixCI (40 # phrase_s_uved) r \<and>
      (let t = rev (dropWhile isWhiteSpace (rev (drop (Suc (length phrase_s_uved)) r))) in
       t \<noteq> [] \<and> last t = 41 \<and> \<not> list_ex isLineTerminator (butlast t)))"

definition bareMarkerTail :: "jsstring \<Rightarrow> bool" where
  \<comment> \<open>\<^verbatim>\<open>\s*A.*?$\<close> at this position, ignoring case\<close>
  "bareMarkerTail s =
     (let r = dropWhile isWhiteSpace s in
      prefixCI phrase_s_uved r \<and> \<not> list_ex isLineTerminator (drop (length phrase_s_uved) r))"

definition outNameOf :: "jsstring \<Rightarrow> jsstring" where
  \<comment> \<open>\<open>base\<close> with the marker suffix \<^verbatim>\<open> (A).pdf\<close> appended\<close>
  "outNameOf zepbPath =
     cutAt bareMarkerTail (cutAt parenMarkerTail (basenameExt zepbPath (asc ''.pdf'')))
       @ [32, 40] @ phrase_s_uved @ [41] @ asc ''.pdf''"

definition emitProgress :: "nat \<Rightarrow> jsstring option \<Rightarrow> logmsg \<Rightarrow> loopState \<Rightarrow> loopState" where
  "emitProgress current code msg st =
     st\<lparr>events := events st @
          [\<lparr>p_processed = processed st, p_skipped = skipped st, p_total = total st,
            p_current = current, p_code = code, p_message = msg\<rparr>]\<rparr>"

definition skipPair :: "nat \<Rightarrow> jsstring \<Rightarrow> logmsg \<Rightarrow> loopState \<Rightarrow> loopState" where
  \<comment> \<open>\<open>summary.log.push(msg); summary.skipped++;\<close> then the progress event\<close>
  "skipPair index code msg st =
     emitProgress index (Some code) msg (st\<lparr>log := log st @ [msg], skipped := skipped st + 1\<rparr>)"

definition mergeBody :: "'t world \<Rightarrow> dict \<Rightarrow> jsstring \<Rightarrow> nat \<Rightarrow> jsstring \<times> jsstring \<Rightarrow> loopState \<Rightarrow> loopState" where
  \<comment> \<open>the loop body after the cancellation checkpoint, for \<open>code = insertCodes[i]\<close> and
      \<open>notifPath = insertDict[code]\<close>\<close>
  "mergeBody w zepbDict outputFolder i ent st =
     (case ent of (code, notifPath) \<Rightarrow>
        (let index = i + 1 in
         case map_of zepbDict code of
           None \<Rightarrow> skipPair index code (NoZepbMsg (basename notifPath) code) st
         | Some zepbPath \<Rightarrow>
             if zepbPath = [] then skipPair index code (NoZepbMsg (basename notifPath) code) st
             else if fileMarkedProcessed (basename zepbPath) then
               skipPair index code (AlreadyProcessedMsg (basename zepbPath)) st
             else
               (let outName = outNameOf zepbPath;
                    outFull = pathJoin outputFolder outName;
                    st1 = st\<lparr>mergeCalls := mergeCalls st @ [(notifPath, zepbPath, outFull)]\<rparr> in
                case mergePdfFiles w notifPath zepbPath outFull of
                  None \<Rightarrow>
                    emitProgress index (Some code) (MergedMsg outName)
                      (st1\<lparr>processed := processed st1 + 1,
                           processedNames := processedNames st1 @ [outName],
                           log := log st1 @ [MergedMsg outName]\<rparr>)
                | Some err \<Rightarrow>
                    emitProgress index (Some code) (MergeErrorMsg code (message err))
                      (st1\<lparr>log := log st1 @ [MergeErrorMsg code (message err)],
                           errors := errors st1 @ [MergeErrorMsg code (message err)],
                           skipped := skipped st1 + 1\<rparr>))))"

text \<open>
  \<open>for (let i = 0; i < insertCodes.length; i++)\<close> from index \<open>i\<close> on. \<open>Object.keys\<close>
  enumerates the keys of \<open>insertDict\<close> and \<open>insertDict[code]\<close> reads the value stored under
  the key, so the loop runs over the entries of the association list.
\<close>

fun mergeLoop :: "'t world \<Rightarrow> dict \<Rightarrow> jsstring \<Rightarrow> nat \<Rightarrow> dict \<Rightarrow> loopState \<Rightarrow> loopState" where
  "mergeLoop w zepbDict outputFolder i [] st = st"
| "mergeLoop w zepbDict outputFolder i (ent # rest) st =
     (if mergeCancelRequested w i then
        emitProgress (i + 1) None CancelMsg (st\<lparr>log := log st @ [CancelMsg], canceled := True\<rparr>)
      else mergeLoop w zepbDict outputFolder (i + 1) rest (mergeBody w zepbDict outputFolder i ent st))"

record mergeArgs =
  mainFolder :: jsstring
  insertFolder :: jsstring
  outputFolder :: jsstring
  recursiveMain :: bool
  recursiveInsert :: bool

definition insertFilter :: "jsstring \<Rightarrow> jsstring \<Rightarrow> bool" where
  \<comment> \<open>\<open>full => full.toLowerCase().endsWith('.pdf')\<close>\<close>
  "insertFilter full name = endsWith (toLowerCase full) (asc ''.pdf'')"

definition word_zepb :: jsstring where
  "word_zepb = [1079, 1101, 1087, 1073]"

definition zepbFilter :: "jsstring \<Rightarrow> jsstring \<Rightarrow> bool" where
  \<comment> \<open>\<^verbatim>\<open>(full, name) => full.toLowerCase().endsWith('.pdf') && name.toLowerCase().includes(Z)\<close>
      for the four-letter Cyrillic word \<open>Z\<close> = \<open>word_zepb\<close>\<close>
  "zepbFilter full name =
     (endsWith (toLowerCase full) (asc ''.pdf'') \<and> includesStr (toLowerCase name) word_zepb)"

definition initialState :: loopState where
  "initialState =
     \<lparr>processed = 0, skipped = 0, errors = [], log = [], total = 0, canceled = False,
      processedNames = [], events = [], mergeCalls = []\<rparr>"

definition caughtReturn :: "loopState \<Rightarrow> jserr \<Rightarrow> MergeReturn" where
  \<comment> \<open>the outer \<open>catch\<close>: the error is pushed to \<open>errors\<close> and \<open>log\<close> of the summary as it
      stands, and the return value has no registry and empty unmatched lists\<close>
  "caughtReturn st err =
     \<lparr>processed = processed st, skipped = skipped st,
      errors = errors st @ [RunErrorMsg (errText err)],
      log = log st @ [RunErrorMsg (errText err)],
      total = total st, canceled = canceled st,
      registry = None, unmatchedNotifications = [], unmatchedZepb = []\<rparr>"

definition error_no_folders :: jserr where
  \<comment> \<open>the error thrown when a folder is missing, with its Cyrillic message\<close>
  "error_no_folders =
     JsErr [1053, 1077, 32, 1091, 1082, 1072, 1079, 1072, 1085, 1099, 32, 1087, 1072, 1087, 1082, 1080]
           (asc ''Error: '' @ [1053, 1077, 32, 1091, 1082, 1072, 1079, 1072, 1085, 1099, 32, 1087, 1072, 1087, 1082, 1080])"

definition insertDictOf :: "('t::linorder) world \<Rightarrow> mergeArgs \<Rightarrow> dict" where
  "insertDictOf w a = buildDict (fsys w) (insertFolder a) (recursiveInsert a) insertFilter extractNotificationCode"

definition zepbDictOf :: "('t::linorder) world \<Rightarrow> mergeArgs \<Rightarrow> dict" where
  "zepbDictOf w a = buildDict (fsys w) (mainFolder a) (recursiveMain a) zepbFilter extractZepbCode"

definition unmatchedOf :: "dict \<Rightarrow> dict \<Rightarrow> (jsstring \<times> jsstring) list" where
  \<comment> \<open>\<open>codes.filter(code => !otherSet.has(code)).map(code => ({code, file: path.basename(dict[code])}))\<close>\<close>
  "unmatchedOf d other =
     map (\<lambda>(code, p). (code, basename p)) (filter (\<lambda>(code, p). code \<notin> set (map fst other)) d)"

definition loopResult :: "('t::linorder) world \<Rightarrow> mergeArgs \<Rightarrow> loopState" where
  \<comment> \<open>the state when the \<open>for\<close> loop is left\<close>
  "loopResult w a =
     mergeLoop w (zepbDictOf w a) (outputFolder a) 0 (insertDictOf w a)
       (initialState\<lparr>total := length (insertDictOf w a)\<rparr>)"

definition mergePdfs :: "('t::linorder) world \<Rightarrow> mergeArgs \<Rightarrow> MergeReturn" where
  "mergePdfs w a =
     (if mainFolder a = [] \<or> insertFolder a = [] \<or> outputFolder a = [] then
        caughtReturn initialState error_no_folders
      else
        (case ensureDir w (outputFolder a) of
           Some err \<Rightarrow> caughtReturn initialState err
         | None \<Rightarrow>
             (let st = loopResult w a;
                  done = (\<lambda>registryPath.
                    \<lparr>processed = processed st, skipped = skipped st, errors = errors st,
                     log = log st, total = total st, canceled = canceled st,
                     registry = registryPath,
                     unmatchedNotifications = unmatchedOf (insertDictOf w a) (zepbDictOf w a),
                     unmatchedZepb = unmatchedOf (zepbDictOf w a) (insertDictOf w a)\<rparr>) in
              if processedNames st = [] then done None
              else (case createRegisterDocx w (outputFolder a) (processedNames st) of
                      Inl err \<Rightarrow> caughtReturn st err
                    | Inr registryPath \<Rightarrow> done (Some registryPath)))))"

text \<open>
  A run is well formed when the two scanned folders are valid trees and the three folder
  paths are over the modelled alphabet.
\<close>

definition wellFormedRun :: "'t world \<Rightarrow> mergeArgs \<Rightarrow> bool" where
  "wellFormedRun w a =
     (inAlphabet (mainFolder a) \<and> inAlphabet (insertFolder a) \<and> inAlphabet (outputFolder a)
      \<and> validTree (readdirTree (fsys w) (insertFolder a))
      \<and> validTree (readdirTree (fsys w) (mainFolder a)))"

section \<open>The compress pipeline\<close>

text \<open>The field \<open>notes\<close> of \<open>FileProcessResult\<close> is called \<open>fileNotes\<close> here.\<close>

record FileProcessResult =
  name :: jsstring
  ok :: bool
  inSize :: "nat option"
  outSize :: "nat option"
  error :: "jsstring option"
  fileNotes :: "jsstring option"

datatype engine = EngineNone | EngineGhostscript bool | EngineFallback

datatype compressLog =
    GotPdfsMsg nat
  | FoundPdfsMsg nat jsstring
  | GsInfoMsg jsstring
  | GsMissingMsg
  | GsDoneMsg jsstring jsstring int
  | FbDoneMsg jsstring jsstring
  | FileErrorMsg jsstring "jsstring option"
  | FinishedMsg engine
  | CompressErrorMsg jsstring

text \<open>The fields of \<open>CompressResult\<close> are \<open>processed\<close>, \<open>total\<close>, \<open>log\<close>, \<open>used\<close> and \<open>files\<close>.\<close>

record CompressResult =
  c_processed :: nat
  c_total :: nat
  c_log :: "compressLog list"
  c_used :: engine
  c_files :: "FileProcessResult list"

datatype compressEvent =
    CompressProgress nat nat FileProcessResult
  | CompressComplete nat nat "compressLog list"

text \<open>
  The surroundings of the compress pipeline: \<open>stat(f).isFile()\<close> (\<open>None\<close> when \<open>stat\<close>
  throws), \<open>fs.ensureDir\<close>, \<open>fs.pathExists\<close>, \<open>readdir\<close>, \<open>findGhostscript\<close>, the result of
  \<open>compressSinglePdf\<close> for a file, and the value of the module variable
  \<open>compressCancelRequested\<close> at the moment the progress callback is called with a given
  index (the \<open>cancel-compress\<close> handler sets it while a file is being compressed).
\<close>

record cworld =
  statIsFile :: "jsstring \<Rightarrow> bool option"
  c_ensureDir :: "jsstring \<Rightarrow> jserr option"
  pathExists :: "jsstring \<Rightarrow> bool"
  readdirNames :: "jsstring \<Rightarrow> jserr + jsstring list"
  findGhostscript :: "jsstring option"
  compressSinglePdf :: "jsstring \<Rightarrow> jsstring \<Rightarrow> int \<Rightarrow> jsstring option \<Rightarrow> FileProcessResult"
  compressCancelRequested :: "nat \<Rightarrow> bool"

definition word_resources :: jsstring where
  "word_resources = asc ''resources''"

definition engineOf :: "jsstring option \<Rightarrow> engine" where
  "engineOf gsCmd =
     (case gsCmd of None \<Rightarrow> EngineFallback | Some g \<Rightarrow> EngineGhostscript (includesStr g word_resources))"

definition engineLog :: "jsstring option \<Rightarrow> compressLog" where
  "engineLog gsCmd = (case gsCmd of None \<Rightarrow> GsMissingMsg | Some g \<Rightarrow> GsInfoMsg g)"

definition recordFile ::
  "jsstring option \<Rightarrow> int \<Rightarrow> jsstring \<Rightarrow> jsstring \<Rightarrow> FileProcessResult \<Rightarrow> CompressResult \<Rightarrow> CompressResult" where
  \<comment> \<open>what the loop body does with the result of one file, before the callback\<close>
  "recordFile gsCmd quality fname outPath fileResult res =
     (let res1 =
        (if ok fileResult then
           res\<lparr>c_processed := c_processed res + 1,
               c_log := c_log res @
                 [if gsCmd \<noteq> None then GsDoneMsg fname outPath quality else FbDoneMsg fname outPath]\<rparr>
         else res\<lparr>c_log := c_log res @ [FileErrorMsg fname (error fileResult)]\<rparr>) in
      res1\<lparr>c_files := c_files res1 @ [fileResult]\<rparr>)"

text \<open>
  The \<open>for (let index = 0; index < pdfs.length; index++)\<close> loop of \<open>compressFiles\<close>, from
  \<open>index\<close> on. The optional callback acts on the state \<open>sink\<close> of its owner.
\<close>

fun compressFilesLoop ::
  "cworld \<Rightarrow> jsstring \<Rightarrow> int \<Rightarrow> jsstring option \<Rightarrow> (nat \<Rightarrow> nat \<Rightarrow> FileProcessResult \<Rightarrow> 's \<Rightarrow> 's) option
     \<Rightarrow> nat \<Rightarrow> jsstring list \<Rightarrow> CompressResult \<times> 's \<Rightarrow> CompressResult \<times> 's" where
  "compressFilesLoop w outFolder quality gsCmd cb index [] rs = rs"
| "compressFilesLoop w outFolder quality gsCmd cb index (fullPath # rest) rs =
     (let fname = basename fullPath;
          outPath = pathJoin outFolder fname;
          fileResult = compressSinglePdf w fullPath outPath quality gsCmd;
          res = recordFile gsCmd quality fname outPath fileResult (fst rs);
          sink = (case cb of None \<Rightarrow> snd rs | Some f \<Rightarrow> f (index + 1) (c_total res) fileResult (snd rs)) in
      compressFilesLoop w outFolder quality gsCmd cb (index + 1) rest (res, sink))"

definition emptyResult :: CompressResult where
  "emptyResult = \<lparr>c_processed = 0, c_total = 0, c_log = [], c_used = EngineNone, c_files = []\<rparr>"

definition keepPdf :: "cworld \<Rightarrow> jsstring \<Rightarrow> bool" where
  \<comment> \<open>\<open>st.isFile() && f.toLowerCase().endsWith('.pdf')\<close>, false when \<open>stat\<close> throws\<close>
  "keepPdf w f = (case statIsFile w f of None \<Rightarrow> False | Some isFile \<Rightarrow> isFile \<and> endsWith (toLowerCase f) (asc ''.pdf''))"

definition error_no_files :: jserr where
  \<comment> \<open>the error thrown for an empty file list, with its Cyrillic message\<close>
  "error_no_files =
     JsErr [1053, 1077, 1090, 32, 1092, 1072, 1081, 1083, 1086, 1074, 32, 1076, 1083, 1103, 32,
            1089, 1078, 1072, 1090, 1080, 1103] []"

definition error_no_output :: jserr where
  \<comment> \<open>the error thrown for a missing output folder, with its Cyrillic message\<close>
  "error_no_output =
     JsErr [1053, 1077, 32, 1091, 1082, 1072, 1079, 1072, 1085, 1072, 32, 1087, 1072, 1087, 1082,
            1072, 32, 1074, 1099, 1074, 1086, 1076, 1072] []"

definition compressFiles ::
  "cworld \<Rightarrow> jsstring list \<Rightarrow> jsstring \<Rightarrow> int \<Rightarrow> (nat \<Rightarrow> nat \<Rightarrow> FileProcessResult \<Rightarrow> 's \<Rightarrow> 's) option \<Rightarrow> 's
     \<Rightarrow> CompressResult \<times> 's" where
  "compressFiles w fileList outFolder quality cb sink =
     (if fileList = [] then (emptyResult\<lparr>c_log := [CompressErrorMsg (message error_no_files)]\<rparr>, sink)
      else if outFolder = [] then (emptyResult\<lparr>c_log := [CompressErrorMsg (message error_no_output)]\<rparr>, sink)
      else (case c_ensureDir w outFolder of
              Some err \<Rightarrow> (emptyResult\<lparr>c_log := [CompressErrorMsg (message err)]\<rparr>, sink)
            | None \<Rightarrow>
                (let pdfs = filter (keepPdf w) fileList;
                     gsCmd = findGhostscript w;
                     res0 = emptyResult\<lparr>c_total := length pdfs,
                                        c_log := [GotPdfsMsg (length pdfs), engineLog gsCmd],
                                        c_used := engineOf gsCmd\<rparr>;
                     rs = compressFilesLoop w outFolder quality gsCmd cb 0 pdfs (res0, sink) in
                 ((fst rs)\<lparr>c_log := FinishedMsg (c_used (fst rs)) # c_log (fst rs)\<rparr>, snd rs))))"

definition compressProgressCallback ::
  "cworld \<Rightarrow> nat \<Rightarrow> nat \<Rightarrow> FileProcessResult \<Rightarrow> compressEvent list \<Rightarrow> compressEvent list" where
  \<comment> \<open>the callback of the \<open>compress-files\<close> handler: \<open>if (compressCancelRequested) return;\<close>
      then the \<open>compress-progress\<close> event\<close>
  "compressProgressCallback w index tot fileResult sink =
     (if compressCancelRequested w index then sink
      else sink @ [CompressProgress index tot fileResult])"

definition compressFilesHandler ::
  "cworld \<Rightarrow> jsstring list \<Rightarrow> jsstring \<Rightarrow> int \<Rightarrow> CompressResult \<times> compressEvent list" where
  \<comment> \<open>\<open>ipcMain.handle('compress-files', ...)\<close>: the result and the events sent to the window\<close>
  "compressFilesHandler w fileList outFolder quality =
     (let rs = compressFiles w fileList outFolder quality (Some (compressProgressCallback w)) [] in
      (fst rs, snd rs @ [CompressComplete (c_processed (fst rs)) (c_total (fst rs)) (c_log (fst rs))]))"

text \<open>The loop of \<open>compressPdfs\<close> over the names read from the input folder.\<close>

fun compressPdfsLoop ::
  "cworld \<Rightarrow> jsstring \<Rightarrow> jsstring \<Rightarrow> int \<Rightarrow> jsstring option \<Rightarrow> (nat \<Rightarrow> nat \<Rightarrow> FileProcessResult \<Rightarrow> 's \<Rightarrow> 's) option
     \<Rightarrow> nat \<Rightarrow> jsstring list \<Rightarrow> CompressResult \<times> 's \<Rightarrow> CompressResult \<times> 's" where
  "compressPdfsLoop w inFolder outFolder quality gsCmd cb index [] rs = rs"
| "compressPdfsLoop w inFolder outFolder quality gsCmd cb index (fname # rest) rs =
     (let inPath = pathJoin inFolder fname;
          outPath = pathJoin outFolder fname;
          fileResult = compressSinglePdf w inPath outPath quality gsCmd;
          res = recordFile gsCmd quality fname outPath fileResult (fst rs);
          sink = (case cb of None \<Rightarrow> snd rs | Some f \<Rightarrow> f (index + 1) (c_total res) fileResult (snd rs)) in
      compressPdfsLoop w inFolder outFolder quality gsCmd cb (index + 1) rest (res, sink))"

definition error_no_io_folders :: jserr where
  \<comment> \<open>the error thrown when the input or the output folder is missing\<close>
  "error_no_io_folders =
     JsErr ([1053, 1077, 32, 1091, 1082, 1072, 1079, 1072, 1085, 1099, 32, 1087, 1072, 1087, 1082, 1080, 32]
            @ asc ''inputFolder/outputFolder'') []"

definition error_input_missing :: "jsstring \<Rightarrow> jserr" where
  \<comment> \<open>the error thrown when the input folder does not exist\<close>
  "error_input_missing inFolder =
     JsErr (asc ''Input folder '' @ [1085, 1077, 32, 1085, 1072, 1081, 1076, 1077, 1085, 58, 32] @ inFolder) []"

definition compressPdfs ::
  "cworld \<Rightarrow> jsstring \<Rightarrow> jsstring \<Rightarrow> int \<Rightarrow> (nat \<Rightarrow> nat \<Rightarrow> FileProcessResult \<Rightarrow> 's \<Rightarrow> 's) option \<Rightarrow> 's
     \<Rightarrow> CompressResult \<times> 's" where
  "compressPdfs w inFolder outFolder quality cb sink =
     (if inFolder = [] \<or> outFolder = [] then
        (emptyResult\<lparr>c_log := [CompressErrorMsg (message error_no_io_folders)]\<rparr>, sink)
      else if \<not> pathExists w inFolder then
        (emptyResult\<lparr>c_log := [CompressErrorMsg (message (error_input_missing inFolder))]\<rparr>, sink)
      else (case c_ensureDir w outFolder of
              Some err \<Rightarrow> (emptyResult\<lparr>c_log := [CompressErrorMsg (message err)]\<rparr>, sink)
            | None \<Rightarrow>
                (case readdirNames w inFolder of
                   Inl err \<Rightarrow> (emptyResult\<lparr>c_log := [CompressErrorMsg (message err)]\<rparr>, sink)
                 | Inr allNames \<Rightarrow>
                     (let pdfs = filter (\<lambda>f. endsWith (toLowerCase f) (asc ''.pdf'')) allNames;
                          gsCmd = findGhostscript w;
                          res0 = emptyResult\<lparr>c_total := length pdfs,
                                             c_log := [FoundPdfsMsg (length pdfs) inFolder, engineLog gsCmd],
                                             c_used := engineOf gsCmd\<rparr>;
                          rs = compressPdfsLoop w inFolder outFolder quality gsCmd cb 0 pdfs (res0, sink) in
                      ((fst rs)\<lparr>c_log := FinishedMsg (c_used (fst rs)) # c_log (fst rs)\<rparr>, snd rs)))))"

definition compressPdfsHandler ::
  "cworld \<Rightarrow> jsstring \<Rightarrow> jsstring \<Rightarrow> int \<Rightarrow> CompressResult \<times> compressEvent list" where
  \<comment> \<open>\<open>ipcMain.handle('compress-pdfs', ...)\<close>, with the same callback\<close>
  "compressPdfsHandler w inFolder outFolder quality =
     (let rs = compressPdfs w inFolder outFolder quality (Some (compressProgressCallback w)) [] in
      (fst rs, snd rs @ [CompressComplete (c_processed (fst rs)) (c_total (fst rs)) (c_log (fst rs))]))"

section \<open>Notions of the specification\<close>

text \<open>
  The matched pairs of the specification: the entries of the notification dictionary whose
  code is also a key of the ZEPB dictionary, in the notification dictionary's order.
\<close>

definition matchedOf :: "dict \<Rightarrow> dict \<Rightarrow> dict" where
  "matchedOf d other = filter (\<lambda>(code, p). code \<in> set (map fst other)) d"

section \<open>Example inputs\<close>

text \<open>
  Names used in the examples, by code units: \<open>code_P\<close>, \<open>code_PTP\<close>, \<open>code_TTP\<close> and
  \<open>code_SPPK\<close> are the Cyrillic prefixes P, PTP, TTP and SPPK; \<open>code_SPD_1\<close> and \<open>code_SPD_2\<close>
  are the prefix SPD followed by \<open>-1\<close> and \<open>-2\<close>.
\<close>

definition code_P :: jsstring where "code_P = [1055]"
definition code_PTP :: jsstring where "code_PTP = [1055, 1058, 1055]"
definition code_TTP :: jsstring where "code_TTP = [1058, 1058, 1055]"
definition code_SPPK :: jsstring where "code_SPPK = [1057, 1055, 1055, 1050]"
definition code_SPD_1 :: jsstring where "code_SPD_1 = [1057, 1055, 1044, 45, 49]"
definition code_SPD_2 :: jsstring where "code_SPD_2 = [1057, 1055, 1044, 45, 50]"

text \<open>
  A notification folder \<open>in\<close> with two versions of one notification (\<open>SPD-1.pdf\<close> and
  \<open>SPD-1.5.pdf\<close>), a sub-folder named by the prefix PTP that holds \<open>12.pdf\<close>, and a file
  that carries the processed marker; a ZEPB folder \<open>main\<close> with the document of code SPD-1
  and a ZEPB folder \<open>only\<close> with a document of code SPD-2. The later of the two
  notification versions is \<open>in/SPD-1.5.pdf\<close>.
\<close>

definition ex_n1 :: jsstring where "ex_n1 = code_SPD_1 @ asc ''.pdf''"
definition ex_n2 :: jsstring where "ex_n2 = code_SPD_1 @ asc ''.5.pdf''"
definition ex_marked :: jsstring where "ex_marked = code_SPD_2 @ asc '' processed.pdf''"
definition ex_z1 :: jsstring where "ex_z1 = word_zepb @ 32 # code_SPD_1 @ asc ''.pdf''"
definition ex_z2 :: jsstring where "ex_z2 = word_zepb @ 32 # code_SPD_2 @ asc ''.pdf''"

definition ex_fs :: "nat filesystem" where
  "ex_fs =
     \<lparr>readdirTree = (\<lambda>p.
         if p = asc ''in'' then
           Some [FileEnt ex_n1, DirEnt code_PTP (Some [FileEnt (asc ''12.pdf'')]),
                 FileEnt ex_n2, FileEnt ex_marked]
         else if p = asc ''main'' then Some [FileEnt ex_z1]
         else if p = asc ''only'' then Some [FileEnt ex_z2]
         else None),
      statMtime = (\<lambda>p. if p = asc ''in/'' @ ex_n2 then Some 20 else Some 10)\<rparr>"

definition ex_args :: mergeArgs where
  "ex_args = \<lparr>mainFolder = asc ''main'', insertFolder = asc ''in'', outputFolder = asc ''out'',
               recursiveMain = False, recursiveInsert = True\<rparr>"

definition ex_args_unmatched :: mergeArgs where
  \<comment> \<open>the same notifications against a ZEPB folder that has no document with their code\<close>
  "ex_args_unmatched = ex_args\<lparr>mainFolder := asc ''only''\<rparr>"

definition ex_world :: "nat world" where
  \<comment> \<open>every collaborator succeeds and nobody cancels\<close>
  "ex_world =
     \<lparr>fsys = ex_fs, ensureDir = (\<lambda>_. None), mergePdfFiles = (\<lambda>_ _ _. None),
      createRegisterDocx = (\<lambda>out _. Inr (out @ asc ''/registry.docx'')),
      mergeCancelRequested = (\<lambda>_. False)\<rparr>"

definition ex_world_registry_fails :: "nat world" where
  "ex_world_registry_fails =
     ex_world\<lparr>createRegisterDocx := (\<lambda>_ _. Inl (JsErr (asc ''EACCES'') (asc ''Error: EACCES'')))\<rparr>"

definition ex_world_canceled :: "nat world" where
  \<comment> \<open>the flag is set before the first checkpoint\<close>
  "ex_world_canceled = ex_world\<lparr>mergeCancelRequested := (\<lambda>_. True)\<rparr>"

definition ex_result :: "jsstring \<Rightarrow> FileProcessResult" where
  "ex_result p = \<lparr>name = basename p, ok = True, inSize = None, outSize = None, error = None,
                 fileNotes = Some (asc ''fallback'')\<rparr>"

definition ex_cworld :: cworld where
  \<comment> \<open>every file compresses; the flag is set while the first file is being compressed, so every
      call of the progress callback finds it set\<close>
  "ex_cworld =
     \<lparr>statIsFile = (\<lambda>_. Some True), c_ensureDir = (\<lambda>_. None), pathExists = (\<lambda>_. True),
      readdirNames = (\<lambda>_. Inr [asc ''a.pdf'', asc ''b.pdf'']),
      findGhostscript = None,
      compressSinglePdf = (\<lambda>inPath _ _ _. ex_result inPath),
      compressCancelRequested = (\<lambda>_. True)\<rparr>"

section \<open>Canonical codes\<close>

lemma isDigit_dot [simp]: "\<not> isDigit 46"
  by (simp add: isDigit_def)

lemma cutAt_keep: "(\<And>a b. r = a @ b \<Longrightarrow> \<not> P b) \<Longrightarrow> cutAt P r = r"
proof (induction r)
  case Nil
  then show ?case by simp
next
  case (Cons c cs)
  have "\<not> P (c # cs)" using Cons.prems [of "[]" "c # cs"] by simp
  moreover have "cutAt P cs = cs"
  proof (rule Cons.IH)
    fix a b assume "cs = a @ b"
    then have "c # cs = (c # a) @ b" by simp
    then show "\<not> P b" by (rule Cons.prems)
  qed
  ultimately show ?case by simp
qed

lemma subVersionAt_inner: "\<not> subVersionAt ((c # xs) @ 46 # ds)"
  by (simp add: subVersionAt_def)

lemma cutAt_subVersion_strip:
  "subVersionAt (46 # ds) \<Longrightarrow> cutAt subVersionAt (body @ 46 # ds) = body"
proof (induction body)
  case Nil
  then show ?case by simp
next
  case (Cons c cs)
  have "\<not> subVersionAt (c # cs @ 46 # ds)" using subVersionAt_inner [of c cs ds] by simp
  with Cons show ?case by simp
qed

lemma subVersionAt_iff:
  "subVersionAt s \<longleftrightarrow> (\<exists>ds. s = 46 # ds \<and> ds \<noteq> [] \<and> length ds \<le> 4 \<and> list_all isDigit ds)"
  by (cases s) (auto simp: subVersionAt_def)

lemma upperUnit_idem [simp]: "upperUnit (upperUnit c) = upperUnit c"
  unfolding upperUnit_def by (cases "c \<le> 122"; cases "c \<le> 1103"; cases "c \<le> 1119") auto

lemma after_last_sep:
  "k \<notin> set u \<Longrightarrow> takeWhile (\<lambda>x. x \<noteq> k) (rev (a @ k # u)) = rev u"
  by (auto simp: takeWhile_tail)

lemma toUpperCase_idem: "toUpperCase (toUpperCase s) = toUpperCase s"
  by (simp add: toUpperCase_def)

lemma upperUnit_fixed_iff:
  "upperUnit u = u \<longleftrightarrow> \<not> (97 \<le> u \<and> u \<le> 122) \<and> \<not> (1072 \<le> u \<and> u \<le> 1119)"
  unfolding upperUnit_def by (cases "u \<le> 122"; cases "u \<le> 1103"; cases "u \<le> 1119") auto

lemma cutAt_is_prefix: "\<exists>rest. r = cutAt P r @ rest"
  by (induction r) auto

text \<open>
  Claim C9. \<open>canonicalCode(null)\<close> is \<open>null\<close>. For raw codes over the modelled alphabet
  (which contains every code the two extractors return: prefix letters, \<open>-\<close>, digits and
  \<open>.\<close>): a raw code that ends in \<open>.\<close> and one to four digits loses exactly that suffix; a raw
  code that ends in \<open>.\<close> and five or more digits, and more generally every non-empty raw code
  that does not end in \<open>.\<close> and one to four digits (so also one whose decimal part is not at
  the end), keeps all its code units. The result is the upper-case form of what is kept: it
  stays within the alphabet, holds no lower-case letter, and upper-casing it again changes
  nothing.
\<close>

theorem canonicalCode_strips_sub_version:
  "canonicalCode None = None
   \<and> (inAlphabet body \<and> ds \<noteq> [] \<and> length ds \<le> 4 \<and> list_all isDigit ds
        \<longrightarrow> canonicalCode (Some (body @ 46 # ds)) = Some (toUpperCase body))
   \<and> (inAlphabet body \<and> 5 \<le> length ds \<and> list_all isDigit ds
        \<longrightarrow> canonicalCode (Some (body @ 46 # ds)) = Some (toUpperCase (body @ 46 # ds)))
   \<and> (inAlphabet r \<and> r \<noteq> []
        \<and> \<not> (\<exists>b e. r = b @ 46 # e \<and> e \<noteq> [] \<and> length e \<le> 4 \<and> list_all isDigit e)
        \<longrightarrow> canonicalCode (Some r) = Some (toUpperCase r))
   \<and> (inAlphabet r \<and> canonicalCode (Some r) = Some c
        \<longrightarrow> inAlphabet c \<and> toUpperCase c = c
            \<and> list_all (\<lambda>u. \<not> (97 \<le> u \<and> u \<le> 122) \<and> \<not> (1072 \<le> u \<and> u \<le> 1119)) c)"
proof (intro conjI impI)
  show "canonicalCode None = None" by (simp add: canonicalCode_def)
next
  assume a: "inAlphabet body \<and> ds \<noteq> [] \<and> length ds \<le> 4 \<and> list_all isDigit ds"
  then have "subVersionAt (46 # ds)" by (simp add: subVersionAt_def)
  then show "canonicalCode (Some (body @ 46 # ds)) = Some (toUpperCase body)"
    by (simp add: canonicalCode_def cutAt_subVersion_strip)
next
  assume a: "inAlphabet body \<and> 5 \<le> length ds \<and> list_all isDigit ds"
  have "cutAt subVersionAt (body @ 46 # ds) = body @ 46 # ds"
  proof (rule cutAt_keep)
    fix x y assume xy: "body @ 46 # ds = x @ y"
    show "\<not> subVersionAt y"
    proof
      assume "subVersionAt y"
      then obtain e where e: "y = 46 # e" "e \<noteq> []" "length e \<le> 4" "list_all isDigit e"
        by (auto simp: subVersionAt_iff)
      from xy e have eq: "body @ 46 # ds = x @ 46 # e" by simp
      have "46 \<notin> set ds" "46 \<notin> set e" using a e by (auto simp: list_all_iff)
      with eq have "rev ds = rev e"
        using after_last_sep [of 46 ds body] after_last_sep [of 46 e x] by simp
      then have "ds = e" by simp
      with a e show False by simp
    qed
  qed
  then show "canonicalCode (Some (body @ 46 # ds)) = Some (toUpperCase (body @ 46 # ds))"
    by (simp add: canonicalCode_def)
next
  assume a: "inAlphabet r \<and> r \<noteq> []
      \<and> \<not> (\<exists>b e. r = b @ 46 # e \<and> e \<noteq> [] \<and> length e \<le> 4 \<and> list_all isDigit e)"
  have "cutAt subVersionAt r = r"
  proof (rule cutAt_keep)
    fix x y assume "r = x @ y"
    with a show "\<not> subVersionAt y" by (auto simp: subVersionAt_iff)
  qed
  with a show "canonicalCode (Some r) = Some (toUpperCase r)"
    by (simp add: canonicalCode_def)
next
  assume a: "inAlphabet r \<and> canonicalCode (Some r) = Some c"
  then have c: "c = toUpperCase (cutAt subVersionAt r)"
    by (auto simp: canonicalCode_def split: if_splits)
  obtain rest where "r = cutAt subVersionAt r @ rest" using cutAt_is_prefix by blast
  with a have "inAlphabet (cutAt subVersionAt r @ rest)" by simp
  then have k: "inAlphabet (cutAt subVersionAt r)" by (simp add: inAlphabet_def)
  have u: "\<And>u. u < 128 \<or> (1024 \<le> u \<and> u \<le> 1119) \<Longrightarrow> upperUnit u < 128 \<or> (1024 \<le> upperUnit u \<and> upperUnit u \<le> 1119)"
    unfolding upperUnit_def by auto
  show "inAlphabet c" using k u by (auto simp: c inAlphabet_def toUpperCase_def list_all_iff)
  show "toUpperCase c = c" by (simp add: c toUpperCase_idem)
  have "\<forall>u\<in>set c. upperUnit u = u" by (auto simp: c toUpperCase_def)
  then show "list_all (\<lambda>u. \<not> (97 \<le> u \<and> u \<le> 122) \<and> \<not> (1072 \<le> u \<and> u \<le> 1119)) c"
    by (simp add: list_all_iff upperUnit_fixed_iff)
qed

theorem canonicalCode_strips_sub_version_witness:
  "inAlphabet [1089, 1087, 1076, 45, 49, 50, 52, 53] \<and> list_all isDigit [50, 53]
   \<and> canonicalCode (Some [1089, 1087, 1076, 45, 49, 50, 52, 53, 46, 50, 53]) = Some [1057, 1055, 1044, 45, 49, 50, 52, 53]
   \<and> canonicalCode (Some [1089, 45, 49, 46, 50, 53, 50, 53, 50]) = Some [1057, 45, 49, 46, 50, 53, 50, 53, 50]
   \<and> canonicalCode (Some [49, 46, 120]) = Some [49, 46, 88]
   \<and> inAlphabet [49, 46, 88]"
proof -
  have h: "\<not> (\<exists>b e. [49, 46, 120] = b @ 46 # e \<and> e \<noteq> [] \<and> length e \<le> 4 \<and> list_all isDigit e)"
    by (auto simp: Cons_eq_append_conv isDigit_def)
  show ?thesis
    using h
      canonicalCode_strips_sub_version [of "[1089, 1087, 1076, 45, 49, 50, 52, 53]" "[50, 53]" "[49, 46, 120]" "[49, 46, 88]"]
      canonicalCode_strips_sub_version [of "[1089, 45, 49]" "[50, 53, 50, 53, 50]" "[]" "[]"]
    by (simp add: isDigit_def toUpperCase_def upperUnit_def inAlphabet_def)
qed

section \<open>Paths of directory entries\<close>

lemma splitSlash_nonempty [simp]: "splitSlash s \<noteq> []"
  by (induction s) (auto split: list.splits)

lemma splitSlash_bare: "47 \<notin> set n \<Longrightarrow> splitSlash n = [n]"
  by (induction n) (auto simp: isSlash_def split: list.splits)

lemma splitSlash_append: "splitSlash (a @ 47 # b) = splitSlash a @ splitSlash b"
  by (induction a) (auto simp: isSlash_def split: list.splits)

lemma joinSlash_snoc: "joinSlash (st @ [n]) = (if st = [] then n else joinSlash st @ 47 # n)"
  by (induction st rule: joinSlash.induct) auto

lemma last_not_slash: "47 \<notin> set (n::jsstring) \<Longrightarrow> n \<noteq> [] \<Longrightarrow> last n \<noteq> 47"
  by (metis last_in_set)

lemma basename_after_slash:
  assumes "47 \<notin> set n" "n \<noteq> []" "pre = [] \<or> last pre = 47"
  shows "basename (pre @ n) = n"
proof -
  have hd: "\<not> isSlash (hd (rev n))" using assms(1,2) by (simp add: isSlash_def hd_rev last_not_slash)
  obtain x xs where r: "rev n = x # xs" using assms(2) by (cases "rev n") auto
  have d: "dropWhile isSlash (rev n @ rev pre) = rev n @ rev pre"
    using hd by (simp add: r)
  have all: "\<forall>x\<in>set (rev n). \<not> isSlash x" using assms(1) by (auto simp: isSlash_def)
  have t: "takeWhile (\<lambda>c. \<not> isSlash c) (rev n @ rev pre) = rev n"
  proof (cases "pre = []")
    case True
    with all show ?thesis by simp
  next
    case False
    with assms(3) have "last pre = 47" by simp
    with False obtain p' where "pre = p' @ [47]" by (metis append_butlast_last_id)
    then have "rev n @ rev pre = rev n @ 47 # rev p'" by simp
    with all show ?thesis by (simp add: takeWhile_tail isSlash_def)
  qed
  show ?thesis by (simp add: basename_def d t)
qed

lemma normStep_valid: "validName n \<Longrightarrow> normStep a st n = st @ [n]"
  by (auto simp: normStep_def validName_def)

lemma normalizeString_snoc:
  assumes "validName n" "segs = splitSlash p"
  shows "normalizeString (p @ 47 # n) a =
           (let st = foldl (normStep a) [] (splitSlash p) in if st = [] then n else joinSlash st @ 47 # n)"
  using assms
  by (simp add: normalizeString_def splitSlash_append splitSlash_bare validName_def normStep_valid joinSlash_snoc Let_def)

lemma normalizeString_bare:
  "validName n \<Longrightarrow> normalizeString n a = n"
  by (simp add: normalizeString_def splitSlash_bare validName_def normStep_valid)

lemma basename_pathJoin:
  assumes v: "validName n"
  shows "basename (pathJoin dir n) = n"
proof -
  have n: "n \<noteq> []" "47 \<notin> set n" using v by (auto simp: validName_def)
  have ln: "\<not> isSlash (last n)" using n by (simp add: isSlash_def last_not_slash)
  show ?thesis
  proof (cases "dir = []")
    case True
    then have "pathJoin dir n = normalize n" using n by (simp add: pathJoin_def)
    also have "\<dots> = n"
      using n ln v by (cases n) (auto simp: normalize_def normalizeString_bare Let_def isSlash_def)
    finally show ?thesis using basename_after_slash [of n "[]"] n by simp
  next
    case False
    define st where "st = foldl (normStep (\<not> isSlash (hd dir))) [] (splitSlash dir)"
    define q where "q = (if st = [] then n else joinSlash st @ 47 # n)"
    have j: "pathJoin dir n = normalize (dir @ 47 # n)" using False n by (simp add: pathJoin_def)
    have hdj: "hd (dir @ 47 # n) = hd dir" using False by simp
    have lastj: "last (dir @ 47 # n) = last n" using n by simp
    have qq: "normalizeString (dir @ 47 # n) (\<not> isSlash (hd dir)) = q"
      using normalizeString_snoc [OF v refl, of dir] by (simp add: q_def st_def Let_def)
    have qne: "q \<noteq> []" using n by (simp add: q_def)
    have "normalize (dir @ 47 # n) = (if isSlash (hd dir) then 47 # q else q)"
      using qne ln by (simp add: normalize_def hdj lastj qq Let_def)
    then obtain pre where pre: "pathJoin dir n = pre @ n" "pre = [] \<or> last pre = 47"
      using j by (cases "st = []"; cases "isSlash (hd dir)") (auto simp: q_def)
    from basename_after_slash [OF n(2) n(1) pre(2)] pre(1) show ?thesis by simp
  qed
qed

section \<open>Invariants of the scan\<close>

lemma set_update_subset: "set (AList.update k v al) \<subseteq> insert (k, v) (set al)"
  by (induction al) auto

lemma codeFor_Some:
  "codeFor ff ex full nm = Some c \<Longrightarrow>
     ff full nm \<and> \<not> fileMarkedProcessed nm \<and> c \<noteq> []
     \<and> (\<exists>raw. ex nm = Some raw \<and> raw \<noteq> [] \<and> canonicalCode (Some raw) = Some c)"
  unfolding codeFor_def by (auto split: if_splits option.splits)

lemma insertCode_entries: "e \<in> set (insertCode stat c full d) \<Longrightarrow> e \<in> set d \<or> e = (c, full)"
  using set_update_subset [of c full d]
  unfolding insertCode_def by (auto split: if_splits option.splits)

lemma visitFile_entries:
  assumes "e \<in> set (visitFile ff ex stat full nm d)"
  shows "e \<in> set d \<or>
         (snd e = full \<and> ff full nm \<and> \<not> fileMarkedProcessed nm
          \<and> (\<exists>raw. ex nm = Some raw \<and> raw \<noteq> [] \<and> canonicalCode (Some raw) = Some (fst e)))"
proof (cases "codeFor ff ex full nm")
  case None
  with assms show ?thesis by (simp add: visitFile_def)
next
  case (Some c)
  with assms have "e \<in> set d \<or> e = (c, full)"
    by (auto simp: visitFile_def dest: insertCode_entries)
  with codeFor_Some [OF Some] show ?thesis by auto
qed

lemma insertCode_distinct:
  "distinct (map fst d) \<Longrightarrow> distinct (map fst (insertCode stat c full d))"
  unfolding insertCode_def
  by (auto split: if_splits option.splits intro: distinct_update)

lemma visitFile_distinct:
  "distinct (map fst d) \<Longrightarrow> distinct (map fst (visitFile ff ex stat full nm d))"
  unfolding visitFile_def
  by (auto split: option.splits intro: insertCode_distinct)

lemma visitFile_marked: "fileMarkedProcessed nm \<Longrightarrow> visitFile ff ex stat full nm d = d"
  by (simp add: visitFile_def codeFor_def)

lemma scanItems_invariant:
  "(\<And>dir nm d. validName nm \<Longrightarrow> (\<forall>e\<in>set d. Q e)
       \<Longrightarrow> \<forall>e\<in>set (visitFile ff ex stat (pathJoin dir nm) nm d). Q e)
   \<Longrightarrow> list_all validEntry items \<Longrightarrow> \<forall>e\<in>set d. Q e
   \<Longrightarrow> \<forall>e\<in>set (scanItems r ff ex stat dir items d). Q e"
proof (induction r ff ex stat dir items d rule: scanItems.induct)
  case (1 r ff ex stat dir d)
  then show ?case by simp
next
  case (2 r ff ex stat dir nm its d)
  have "validName nm" using "2.prems"(2) by simp
  then have "\<forall>e\<in>set (visitFile ff ex stat (pathJoin dir nm) nm d). Q e"
    using "2.prems"(3) by (rule "2.prems"(1))
  moreover have "list_all validEntry its" using "2.prems"(2) by simp
  ultimately have "\<forall>e\<in>set (scanItems r ff ex stat dir its (visitFile ff ex stat (pathJoin dir nm) nm d)). Q e"
    using "2.IH" [OF "2.prems"(1)] by blast
  then show ?case by simp
next
  case (3 r ff ex stat dir nm its d)
  have "list_all validEntry its" using "3.prems"(2) by simp
  from "3.IH" [OF "3.prems"(1) this "3.prems"(3)] show ?case by simp
next
  case (4 r ff ex stat dir nm sub its d)
  have its: "list_all validEntry its" using "4.prems"(2) by simp
  show ?case
  proof (cases "isRejectsFolder nm")
    case True
    from "4.IH"(1) [OF True "4.prems"(1) its "4.prems"(3)] True show ?thesis by simp
  next
    case nr: False
    show ?thesis
    proof (cases r)
      case False
      from "4.IH"(4) [OF nr False "4.prems"(1) its "4.prems"(3)] nr False show ?thesis by simp
    next
      case True
      show ?thesis
      proof (cases sub)
        case None
        from "4.IH"(3) [OF nr True "4.prems"(1) its] "4.prems"(3) None nr True
        show ?thesis by simp
      next
        case (Some sitems)
        have si: "list_all validEntry sitems" using "4.prems"(2) Some by simp
        have inner: "\<forall>e\<in>set (scanItems r ff ex stat (pathJoin dir nm) sitems d). Q e"
          using "4.IH"(2) [OF nr True Some "4.prems"(1) si "4.prems"(3)] .
        from "4.IH"(3) [OF nr True "4.prems"(1) its] inner Some nr True
        show ?thesis by simp
      qed
    qed
  qed
qed

lemma scanItems_distinct:
  "distinct (map fst d) \<Longrightarrow> distinct (map fst (scanItems r ff ex stat dir items d))"
proof (induction r ff ex stat dir items d rule: scanItems.induct)
  case (4 r ff ex stat dir nm sub its d)
  then show ?case by (auto split: option.splits)
qed (simp_all add: visitFile_distinct)

lemma buildDict_distinct: "distinct (map fst (buildDict fs root r ff ex))"
  by (simp add: buildDict_def scanItems_distinct split: option.splits)

lemma scanItems_pruneMarked:
  "scanItems r ff ex stat dir (pruneMarked items) d = scanItems r ff ex stat dir items d"
proof (induction r ff ex stat dir items d rule: scanItems.induct)
  case (2 r ff ex stat dir nm its d)
  show ?case
  proof (cases "fileMarkedProcessed nm")
    case True
    with 2 show ?thesis by (simp add: visitFile_marked)
  next
    case False
    with 2 show ?thesis by simp
  qed
next
  case (4 r ff ex stat dir nm sub its d)
  then show ?case by (auto split: option.splits)
qed simp_all

lemma pruneMarked_idem: "pruneMarked (pruneMarked items) = pruneMarked items"
  by (induction items rule: pruneMarked.induct) (auto split: option.splits)

lemma buildDict_values_unmarked:
  assumes "validTree (readdirTree fs root)" "e \<in> set (buildDict fs root r ff ex)"
  shows "\<not> fileMarkedProcessed (basename (snd e))"
proof (cases "readdirTree fs root")
  case None
  with assms(2) show ?thesis by (simp add: buildDict_def)
next
  case (Some items)
  have "\<forall>e\<in>set (scanItems r ff ex (statMtime fs) root items []). \<not> fileMarkedProcessed (basename (snd e))"
  proof (rule scanItems_invariant)
    fix dir nm and d :: dict
    assume v: "validName nm" and d: "\<forall>e\<in>set d. \<not> fileMarkedProcessed (basename (snd e))"
    show "\<forall>e\<in>set (visitFile ff ex (statMtime fs) (pathJoin dir nm) nm d).
             \<not> fileMarkedProcessed (basename (snd e))"
      using visitFile_entries [of _ ff ex "statMtime fs" "pathJoin dir nm" nm d] d
        basename_pathJoin [OF v, of dir]
      by fastforce
  next
    show "list_all validEntry items" using assms(1) Some by (simp add: validTree_def)
  qed simp
  with assms(2) Some show ?thesis by (simp add: buildDict_def)
qed

section \<open>Evaluation of the examples\<close>

lemmas str_defs = asc_def code_SPD_1_def code_SPD_2_def code_P_def code_PTP_def code_TTP_def
  code_SPPK_def word_zepb_def phrase_s_uved_def phrase_s_uvedoml_def phrase_with_notification_def
  phrase_obedinen_def phrase_processed_def folder_otkazy_def ex_n1_def ex_n2_def ex_marked_def
  ex_z1_def ex_z2_def

lemmas char_defs = isDigit_def isWordChar_def isLineTerminator_def isWhiteSpace_def isSlash_def
  upperUnit_def lowerUnit_def toUpperCase_def toLowerCase_def inAlphabet_def

lemmas marker_defs = fileMarkedProcessed_def markerAt_def parenMarkerAt_def boundedPhraseAt_def
  prefixCI_def wordBoundary_def headOpt_def

lemmas path_defs = basename_def dirname_def pathJoin_def normalize_def normalizeString_def
  normStep_def

lemmas code_defs = CODE_REGEX_def PREFIXES_def codeTailAt_def numberAt_def
  extractNotificationCode_def extractZepbCode_def canonicalCode_def subVersionAt_def
  startsWith_def endsWith_def

lemma ex_names_valid:
  "validName ex_n1" "validName ex_n2" "validName ex_marked" "validName ex_z1" "validName ex_z2"
  "validName code_PTP" "validName (asc ''12.pdf'')"
  by (simp_all add: validName_def str_defs char_defs)

lemma ex_marker:
  "\<not> fileMarkedProcessed ex_n1" "\<not> fileMarkedProcessed ex_n2" "fileMarkedProcessed ex_marked"
  "\<not> fileMarkedProcessed ex_z1" "\<not> fileMarkedProcessed ex_z2"
  "\<not> fileMarkedProcessed (asc ''12.pdf'')"
  by (simp_all add: str_defs char_defs marker_defs)

lemma ex_paths:
  "pathJoin (asc ''in'') ex_n1 = asc ''in/'' @ ex_n1"
  "pathJoin (asc ''in'') ex_n2 = asc ''in/'' @ ex_n2"
  "pathJoin (asc ''in'') code_PTP = asc ''in/'' @ code_PTP"
  "pathJoin (asc ''in/'' @ code_PTP) (asc ''12.pdf'') = asc ''in/'' @ code_PTP @ asc ''/12.pdf''"
  "pathJoin (asc ''in'') ex_marked = asc ''in/'' @ ex_marked"
  "pathJoin (asc ''main'') ex_z1 = asc ''main/'' @ ex_z1"
  "pathJoin (asc ''only'') ex_z2 = asc ''only/'' @ ex_z2"
  by (simp_all add: str_defs char_defs path_defs)

lemma ex_codes:
  "extractNotificationCode ex_n1 = Some code_SPD_1"
  "extractNotificationCode ex_n2 = Some (code_SPD_1 @ asc ''.5'')"
  "extractNotificationCode (asc ''12.pdf'') = None"
  "extractZepbCode ex_z1 = Some code_SPD_1"
  "extractZepbCode ex_z2 = Some code_SPD_2"
  by (simp_all add: str_defs char_defs path_defs code_defs prefixCI_def)

lemma ex_canonical:
  "canonicalCode (Some code_SPD_1) = Some code_SPD_1"
  "canonicalCode (Some (code_SPD_1 @ asc ''.5'')) = Some code_SPD_1"
  "canonicalCode (Some code_SPD_2) = Some code_SPD_2"
  by (simp_all add: str_defs char_defs code_defs)

lemma ex_distinct:
  "asc ''main'' \<noteq> asc ''in''" "asc ''only'' \<noteq> asc ''in''" "asc ''only'' \<noteq> asc ''main''"
  "ex_n1 \<noteq> ex_n2" "code_SPD_1 \<noteq> []" "code_SPD_2 \<noteq> []" "code_SPD_1 \<noteq> code_SPD_2"
  "asc ''in/'' @ ex_n1 \<noteq> []" "asc ''in/'' @ ex_n2 \<noteq> []" "asc ''main/'' @ ex_z1 \<noteq> []"
  "asc ''only/'' @ ex_z2 \<noteq> []" "\<not> isRejectsFolder code_PTP"
  "inAlphabet (asc ''in'')" "inAlphabet (asc ''main'')" "inAlphabet (asc ''only'')" "inAlphabet (asc ''out'')"
  by (simp_all add: str_defs char_defs isRejectsFolder_def)

lemma ex_filters:
  "insertFilter (asc ''in/'' @ ex_n1) ex_n1" "insertFilter (asc ''in/'' @ ex_n2) ex_n2"
  "insertFilter (asc ''in/'' @ code_PTP @ asc ''/12.pdf'') (asc ''12.pdf'')"
  "zepbFilter (asc ''main/'' @ ex_z1) ex_z1" "zepbFilter (asc ''only/'' @ ex_z2) ex_z2"
  by (simp_all add: insertFilter_def zepbFilter_def endsWith_def startsWith_def str_defs char_defs)

lemma ex_codeFor:
  "codeFor insertFilter extractNotificationCode (asc ''in/'' @ ex_n1) ex_n1 = Some code_SPD_1"
  "codeFor insertFilter extractNotificationCode (asc ''in/'' @ ex_n2) ex_n2 = Some code_SPD_1"
  "codeFor insertFilter extractNotificationCode (asc ''in/'' @ code_PTP @ asc ''/12.pdf'') (asc ''12.pdf'') = None"
  "codeFor ff ex full ex_marked = None"
  "codeFor zepbFilter extractZepbCode (asc ''main/'' @ ex_z1) ex_z1 = Some code_SPD_1"
  "codeFor zepbFilter extractZepbCode (asc ''only/'' @ ex_z2) ex_z2 = Some code_SPD_2"
  by (simp_all add: codeFor_def ex_filters ex_marker ex_codes ex_canonical ex_distinct)

lemma ex_insertDict:
  "buildDict ex_fs (asc ''in'') True insertFilter extractNotificationCode
     = [(code_SPD_1, asc ''in/'' @ ex_n2)]"
  by (simp add: buildDict_def ex_fs_def visitFile_def insertCode_def dictTruthy_def
        ex_paths ex_codeFor ex_distinct)

lemma ex_zepbDict:
  "buildDict ex_fs (asc ''main'') False zepbFilter extractZepbCode = [(code_SPD_1, asc ''main/'' @ ex_z1)]"
  "buildDict ex_fs (asc ''only'') False zepbFilter extractZepbCode = [(code_SPD_2, asc ''only/'' @ ex_z2)]"
  by (simp_all add: buildDict_def ex_fs_def visitFile_def insertCode_def dictTruthy_def
        ex_paths ex_codeFor ex_distinct)

lemma ex_trees_valid:
  "validTree (readdirTree ex_fs (asc ''in''))" "validTree (readdirTree ex_fs (asc ''main''))"
  "validTree (readdirTree ex_fs (asc ''only''))"
  by (simp_all add: validTree_def ex_fs_def ex_names_valid ex_distinct)

section \<open>Code extraction inside the scan\<close>

lemma basename_bare: "47 \<notin> set n \<Longrightarrow> basename n = n"
proof (cases "n = []")
  case True
  then show ?thesis by (simp add: basename_def)
next
  case False
  assume "47 \<notin> set n"
  with False basename_after_slash [of n "[]"] show ?thesis by simp
qed

lemma dirname_bare: "47 \<notin> set n \<Longrightarrow> dirname n = [46]"
proof (cases n)
  case Nil
  then show ?thesis by (simp add: dirname_def)
next
  case (Cons c cs)
  assume "47 \<notin> set n"
  with Cons have c: "\<not> isSlash c" and cs: "\<forall>x\<in>set (rev cs). \<not> isSlash x" by (auto simp: isSlash_def)
  have 1: "dropWhile isSlash (rev cs) = rev cs"
    using cs by (cases "rev cs") auto
  have 2: "dropWhile (\<lambda>x. \<not> isSlash x) (rev cs) = []"
    using cs by simp
  show ?thesis using c cs by (simp add: Cons dirname_def 1)
qed

lemma no_prefix_in_dot: "find (includesStr (toUpperCase [46])) PREFIXES = None"
  by code_simp

lemma extractNotificationCode_bare:
  "47 \<notin> set n \<Longrightarrow> extractNotificationCode n = extractZepbCode n"
  by (simp add: extractNotificationCode_def extractZepbCode_def basename_bare dirname_bare
        no_prefix_in_dot split: option.splits)

lemma codeFor_bare:
  "47 \<notin> set nm \<Longrightarrow> codeFor ff extractNotificationCode full nm = codeFor ff extractZepbCode full nm"
  by (simp add: codeFor_def extractNotificationCode_bare)

lemma visitFile_bare:
  "validName nm \<Longrightarrow> visitFile ff extractNotificationCode stat full nm d = visitFile ff extractZepbCode stat full nm d"
  by (simp add: visitFile_def codeFor_bare validName_def)

lemma scanItems_bare:
  "list_all validEntry items \<Longrightarrow>
     scanItems r ff ex stat dir items d = scanItems r ff extractZepbCode stat dir items d"
  if "ex = extractNotificationCode"
  using that
proof (induction r ff ex stat dir items d rule: scanItems.induct)
  case (1 r ff ex stat dir d)
  then show ?case by simp
next
  case (2 r ff ex stat dir nm its d)
  have "validName nm" "list_all validEntry its" using "2.prems"(1) by simp_all
  with "2.IH" "2.prems"(2) show ?case by (simp add: visitFile_bare)
next
  case (3 r ff ex stat dir nm its d)
  then show ?case by simp
next
  case (4 r ff ex stat dir nm sub its d)
  have its: "list_all validEntry its" using "4.prems"(1) by simp
  note e = "4.prems"(2)
  show ?case
  proof (cases "isRejectsFolder nm")
    case True
    from "4.IH"(1) [OF True its e] True show ?thesis by simp
  next
    case nr: False
    show ?thesis
    proof (cases r)
      case False
      from "4.IH"(4) [OF nr False its e] nr False show ?thesis by simp
    next
      case True
      show ?thesis
      proof (cases sub)
        case None
        from "4.IH"(3) [OF nr True its e] None nr True show ?thesis by simp
      next
        case (Some sitems)
        have si: "list_all validEntry sitems" using "4.prems"(1) Some by simp
        have inner: "scanItems r ff ex stat (pathJoin dir nm) sitems d
                       = scanItems r ff extractZepbCode stat (pathJoin dir nm) sitems d"
          using "4.IH"(2) [OF nr True Some si e] .
        from "4.IH"(3) [OF nr True its e] inner Some nr True show ?thesis by simp
      qed
    qed
  qed
qed

lemma buildDict_entries_matched:
  assumes "validTree (readdirTree fs root)" "e \<in> set (buildDict fs root r ff extractNotificationCode)"
  shows "CODE_REGEX (basename (snd e)) \<noteq> None"
proof (cases "readdirTree fs root")
  case None
  with assms(2) show ?thesis by (simp add: buildDict_def)
next
  case (Some items)
  have "\<forall>e\<in>set (scanItems r ff extractNotificationCode (statMtime fs) root items []).
          CODE_REGEX (basename (snd e)) \<noteq> None"
  proof (rule scanItems_invariant)
    fix dir nm and d :: dict
    assume v: "validName nm" and d: "\<forall>e\<in>set d. CODE_REGEX (basename (snd e)) \<noteq> None"
    have bare: "extractNotificationCode nm = extractZepbCode nm"
      using v by (simp add: extractNotificationCode_bare validName_def)
    show "\<forall>e\<in>set (visitFile ff extractNotificationCode (statMtime fs) (pathJoin dir nm) nm d).
             CODE_REGEX (basename (snd e)) \<noteq> None"
    proof
      fix e assume "e \<in> set (visitFile ff extractNotificationCode (statMtime fs) (pathJoin dir nm) nm d)"
      from visitFile_entries [OF this] have
        "e \<in> set d \<or> (snd e = pathJoin dir nm \<and> (\<exists>raw. extractNotificationCode nm = Some raw))"
        by blast
      then show "CODE_REGEX (basename (snd e)) \<noteq> None"
      proof
        assume "e \<in> set d"
        with d show ?thesis by blast
      next
        assume "snd e = pathJoin dir nm \<and> (\<exists>raw. extractNotificationCode nm = Some raw)"
        with bare basename_pathJoin [OF v, of dir] show ?thesis
          by (auto simp: extractZepbCode_def)
      qed
    qed
  next
    show "list_all validEntry items" using assms(1) Some by (simp add: validTree_def)
  qed simp
  with assms(2) Some show ?thesis by (simp add: buildDict_def)
qed

text \<open>
  Claim C10. \<open>buildDict\<close> hands the extractor the entry name. For a name without a separator
  \<open>path.basename\<close> is the name itself and the computed parent folder is \<open>.\<close>, in which no
  prefix is found, so \<open>extractNotificationCode\<close> answers exactly what the pattern finds in
  the name. Over a valid tree the dictionary built with \<open>extractNotificationCode\<close> is
  therefore the one built with the file-name-only extractor \<open>extractZepbCode\<close>, and the base
  name of every file in it is matched by the pattern.
\<close>

theorem buildDict_folder_fallback_never_fires:
  "(47 \<notin> set nm \<and> inAlphabet nm \<longrightarrow>
      basename nm = nm \<and> basename (dirname nm) = [46]
      \<and> find (\<lambda>p. includesStr (toUpperCase (basename (dirname nm))) p) PREFIXES = None
      \<and> extractNotificationCode nm = map_option toUpperCase (CODE_REGEX nm))
   \<and> (validTree (readdirTree fs root) \<and> inAlphabet root \<longrightarrow>
      buildDict fs root r ff extractNotificationCode = buildDict fs root r ff extractZepbCode
      \<and> (\<forall>e\<in>set (buildDict fs root r ff extractNotificationCode). CODE_REGEX (basename (snd e)) \<noteq> None))"
proof (intro conjI impI ballI)
  assume "47 \<notin> set nm \<and> inAlphabet nm"
  then have n: "47 \<notin> set nm" by simp
  show "basename nm = nm" using n by (rule basename_bare)
  show "basename (dirname nm) = [46]" using n by (simp add: dirname_bare basename_bare)
  show "find (\<lambda>p. includesStr (toUpperCase (basename (dirname nm))) p) PREFIXES = None"
    using n no_prefix_in_dot by (simp add: dirname_bare basename_bare)
  show "extractNotificationCode nm = map_option toUpperCase (CODE_REGEX nm)"
    using extractNotificationCode_bare [OF n] by (simp add: extractZepbCode_def)
next
  assume "validTree (readdirTree fs root) \<and> inAlphabet root"
  then have v: "validTree (readdirTree fs root)" by simp
  show "buildDict fs root r ff extractNotificationCode = buildDict fs root r ff extractZepbCode"
  proof (cases "readdirTree fs root")
    case None
    then show ?thesis by (simp add: buildDict_def)
  next
    case (Some items)
    with v have "list_all validEntry items" by (simp add: validTree_def)
    from scanItems_bare [OF refl this] Some show ?thesis by (simp add: buildDict_def)
  qed
next
  fix e
  assume "validTree (readdirTree fs root) \<and> inAlphabet root"
    and "e \<in> set (buildDict fs root r ff extractNotificationCode)"
  then show "CODE_REGEX (basename (snd e)) \<noteq> None" using buildDict_entries_matched by blast
qed

theorem buildDict_folder_fallback_never_fires_witness:
  "47 \<notin> set (asc ''12.pdf'') \<and> inAlphabet (asc ''12.pdf'')
   \<and> extractNotificationCode (asc ''12.pdf'') = map_option toUpperCase (CODE_REGEX (asc ''12.pdf''))
   \<and> extractNotificationCode (asc ''12.pdf'') = None
   \<and> validTree (readdirTree ex_fs (asc ''in'')) \<and> inAlphabet (asc ''in'')
   \<and> buildDict ex_fs (asc ''in'') True insertFilter extractNotificationCode
         = [(code_SPD_1, asc ''in/'' @ ex_n2)]
   \<and> buildDict ex_fs (asc ''in'') True insertFilter extractZepbCode
         = [(code_SPD_1, asc ''in/'' @ ex_n2)]"
proof -
  have h1: "47 \<notin> set (asc ''12.pdf'') \<and> inAlphabet (asc ''12.pdf'')"
    using ex_names_valid(7) by (simp add: validName_def)
  have h2: "validTree (readdirTree ex_fs (asc ''in'')) \<and> inAlphabet (asc ''in'')"
    by (simp add: ex_trees_valid ex_distinct)
  from buildDict_folder_fallback_never_fires [of "asc ''12.pdf''" ex_fs "asc ''in''" True insertFilter]
    h1 h2 ex_codes(3) ex_insertDict
  show ?thesis by simp
qed

section \<open>The processed marker in the scan\<close>

text \<open>
  Claim C8. Over a valid tree no value of the dictionary has a base name that carries the
  processed marker, whatever the filter and the extractor are. \<open>buildDict\<close> only reads the
  folder, so it is a function of the folder; moreover the dictionary is the one of the
  folder without its marked files, and removing the marked files a second time changes
  nothing: files with the marker, present or added between two scans, never change the
  result.
\<close>

theorem buildDict_never_offers_marked_files:
  "validTree (readdirTree fs root) \<and> inAlphabet root \<longrightarrow>
     (\<forall>e\<in>set (buildDict fs root r ff ex). \<not> fileMarkedProcessed (basename (snd e)))
     \<and> buildDict (fs\<lparr>readdirTree := (\<lambda>p. map_option pruneMarked (readdirTree fs p))\<rparr>) root r ff ex
           = buildDict fs root r ff ex
     \<and> (\<forall>items. pruneMarked (pruneMarked items) = pruneMarked items)"
proof (intro impI conjI ballI allI)
  fix e
  assume "validTree (readdirTree fs root) \<and> inAlphabet root" "e \<in> set (buildDict fs root r ff ex)"
  then show "\<not> fileMarkedProcessed (basename (snd e))"
    using buildDict_values_unmarked by blast
next
  show "buildDict (fs\<lparr>readdirTree := (\<lambda>p. map_option pruneMarked (readdirTree fs p))\<rparr>) root r ff ex
          = buildDict fs root r ff ex"
    by (cases "readdirTree fs root") (simp_all add: buildDict_def scanItems_pruneMarked)
next
  fix items
  show "pruneMarked (pruneMarked items) = pruneMarked items" by (rule pruneMarked_idem)
qed

theorem buildDict_never_offers_marked_files_witness:
  "validTree (readdirTree ex_fs (asc ''in'')) \<and> inAlphabet (asc ''in'')
   \<and> fileMarkedProcessed ex_marked
   \<and> buildDict ex_fs (asc ''in'') True insertFilter extractNotificationCode = [(code_SPD_1, asc ''in/'' @ ex_n2)]
   \<and> \<not> fileMarkedProcessed (basename (asc ''in/'' @ ex_n2))
   \<and> buildDict (ex_fs\<lparr>readdirTree := (\<lambda>p. map_option pruneMarked (readdirTree ex_fs p))\<rparr>)
         (asc ''in'') True insertFilter extractNotificationCode = [(code_SPD_1, asc ''in/'' @ ex_n2)]"
  using buildDict_never_offers_marked_files [of ex_fs "asc ''in''" True insertFilter extractNotificationCode]
    ex_trees_valid(1) ex_distinct(13) ex_marker(3) ex_insertDict
  by simp

section \<open>Conflicts between files of one code\<close>

lemma pathJoin_nonempty: "pathJoin a b \<noteq> []"
  by (simp add: pathJoin_def normalize_def Let_def)

lemma insertCode_conflict:
  assumes "dictTruthy d c" "map_of d c = Some old"
  shows "map_of (insertCode stat c full d) c
           = Some (if (\<exists>t1 t2. stat old = Some t1 \<and> stat full = Some t2 \<and> t1 < t2) then full else old)"
    and "map fst (insertCode stat c full d) = map fst d"
proof -
  have k: "c \<in> fst ` set d" using assms(2) by (metis map_of_eq_None_iff option.distinct(1))
  show "map_of (insertCode stat c full d) c
           = Some (if (\<exists>t1 t2. stat old = Some t1 \<and> stat full = Some t2 \<and> t1 < t2) then full else old)"
    using assms by (cases "stat old"; cases "stat full") (simp_all add: insertCode_def update_conv')
  show "map fst (insertCode stat c full d) = map fst d"
    using assms k by (cases "stat old"; cases "stat full") (simp_all add: insertCode_def update_keys)
qed

lemma scan_two_files:
  assumes "codeFor ff ex (pathJoin dir n1) n1 = Some c" "codeFor ff ex (pathJoin dir n2) n2 = Some c"
  shows "scanItems r ff ex stat dir [FileEnt n1, FileEnt n2] []
           = [(c, if (\<exists>t1 t2. stat (pathJoin dir n1) = Some t1 \<and> stat (pathJoin dir n2) = Some t2 \<and> t1 < t2)
                  then pathJoin dir n2 else pathJoin dir n1)]"
  using assms pathJoin_nonempty [of dir n1]
  by (cases "stat (pathJoin dir n1)"; cases "stat (pathJoin dir n2)")
     (simp_all add: visitFile_def insertCode_def dictTruthy_def)

text \<open>
  Claim C5. When the canonical code already has an entry, the entry afterwards is the new
  file if both files can be \<open>stat\<close>ed and the new one has the strictly later modification
  time, and the old file otherwise; the keys and their order are unchanged. For two files
  of one code in a folder: if both can be \<open>stat\<close>ed and one is strictly later, that one is
  the value whichever of the two the scan meets first; if a \<open>stat\<close> fails or the times are
  equal, the file met first is the value.
\<close>

theorem buildDict_conflict_keeps_newest:
  "(dictTruthy d c \<and> map_of d c = Some old \<longrightarrow>
       map_of (insertCode stat c full d) c
         = Some (if (\<exists>t1 t2. stat old = Some t1 \<and> stat full = Some t2 \<and> t1 < t2) then full else old)
       \<and> map fst (insertCode stat c full d) = map fst d)
   \<and> (validName n1 \<and> validName n2 \<and> inAlphabet dir
       \<and> codeFor ff ex (pathJoin dir n1) n1 = Some c \<and> codeFor ff ex (pathJoin dir n2) n2 = Some c \<longrightarrow>
         (\<forall>t1 t2. stat (pathJoin dir n1) = Some t1 \<and> stat (pathJoin dir n2) = Some t2 \<and> t1 < t2 \<longrightarrow>
             scanItems r ff ex stat dir [FileEnt n1, FileEnt n2] [] = [(c, pathJoin dir n2)]
             \<and> scanItems r ff ex stat dir [FileEnt n2, FileEnt n1] [] = [(c, pathJoin dir n2)])
         \<and> (stat (pathJoin dir n1) = None \<or> stat (pathJoin dir n2) = None
              \<or> stat (pathJoin dir n1) = stat (pathJoin dir n2) \<longrightarrow>
             scanItems r ff ex stat dir [FileEnt n1, FileEnt n2] [] = [(c, pathJoin dir n1)]))"
proof (intro conjI impI allI)
  assume a: "dictTruthy d c \<and> map_of d c = Some old"
  then show "map_of (insertCode stat c full d) c
         = Some (if (\<exists>t1 t2. stat old = Some t1 \<and> stat full = Some t2 \<and> t1 < t2) then full else old)"
    using insertCode_conflict(1) by blast
  from a show "map fst (insertCode stat c full d) = map fst d"
    using insertCode_conflict(2) by blast
next
  fix t1 t2
  assume a: "validName n1 \<and> validName n2 \<and> inAlphabet dir
       \<and> codeFor ff ex (pathJoin dir n1) n1 = Some c \<and> codeFor ff ex (pathJoin dir n2) n2 = Some c"
    and t: "stat (pathJoin dir n1) = Some t1 \<and> stat (pathJoin dir n2) = Some t2 \<and> t1 < t2"
  from a have c1: "codeFor ff ex (pathJoin dir n1) n1 = Some c"
    and c2: "codeFor ff ex (pathJoin dir n2) n2 = Some c" by simp_all
  show "scanItems r ff ex stat dir [FileEnt n1, FileEnt n2] [] = [(c, pathJoin dir n2)]"
    using scan_two_files [OF c1 c2, of r stat] t by simp
  show "scanItems r ff ex stat dir [FileEnt n2, FileEnt n1] [] = [(c, pathJoin dir n2)]"
    using scan_two_files [OF c2 c1, of r stat] t by auto
next
  assume a: "validName n1 \<and> validName n2 \<and> inAlphabet dir
       \<and> codeFor ff ex (pathJoin dir n1) n1 = Some c \<and> codeFor ff ex (pathJoin dir n2) n2 = Some c"
    and t: "stat (pathJoin dir n1) = None \<or> stat (pathJoin dir n2) = None
              \<or> stat (pathJoin dir n1) = stat (pathJoin dir n2)"
  from a have c1: "codeFor ff ex (pathJoin dir n1) n1 = Some c"
    and c2: "codeFor ff ex (pathJoin dir n2) n2 = Some c" by simp_all
  show "scanItems r ff ex stat dir [FileEnt n1, FileEnt n2] [] = [(c, pathJoin dir n1)]"
    using scan_two_files [OF c1 c2, of r stat] t by auto
qed

theorem buildDict_conflict_keeps_newest_witness:
  "dictTruthy [(code_SPD_1, asc ''in/'' @ ex_n1)] code_SPD_1
   \<and> map_of (insertCode (statMtime ex_fs) code_SPD_1 (asc ''in/'' @ ex_n2) [(code_SPD_1, asc ''in/'' @ ex_n1)]) code_SPD_1
        = Some (asc ''in/'' @ ex_n2)
   \<and> validName ex_n1 \<and> validName ex_n2 \<and> inAlphabet (asc ''in'')
   \<and> codeFor insertFilter extractNotificationCode (pathJoin (asc ''in'') ex_n1) ex_n1 = Some code_SPD_1
   \<and> codeFor insertFilter extractNotificationCode (pathJoin (asc ''in'') ex_n2) ex_n2 = Some code_SPD_1
   \<and> statMtime ex_fs (pathJoin (asc ''in'') ex_n1) = Some 10 \<and> statMtime ex_fs (pathJoin (asc ''in'') ex_n2) = Some 20
   \<and> scanItems False insertFilter extractNotificationCode (statMtime ex_fs) (asc ''in'') [FileEnt ex_n1, FileEnt ex_n2] []
        = [(code_SPD_1, asc ''in/'' @ ex_n2)]
   \<and> scanItems False insertFilter extractNotificationCode (statMtime ex_fs) (asc ''in'') [FileEnt ex_n2, FileEnt ex_n1] []
        = [(code_SPD_1, asc ''in/'' @ ex_n2)]
   \<and> scanItems False insertFilter extractNotificationCode (\<lambda>_. Some (5::nat)) (asc ''in'') [FileEnt ex_n1, FileEnt ex_n2] []
        = [(code_SPD_1, asc ''in/'' @ ex_n1)]
   \<and> scanItems False insertFilter extractNotificationCode (\<lambda>_. None :: nat option) (asc ''in'') [FileEnt ex_n1, FileEnt ex_n2] []
        = [(code_SPD_1, asc ''in/'' @ ex_n1)]"
proof -
  have s: "statMtime ex_fs (asc ''in/'' @ ex_n1) = Some 10" "statMtime ex_fs (asc ''in/'' @ ex_n2) = Some 20"
    by (simp_all add: ex_fs_def ex_distinct)
  have d: "dictTruthy [(code_SPD_1, asc ''in/'' @ ex_n1)] code_SPD_1"
    by (simp add: dictTruthy_def asc_def)
  show ?thesis
    using s d ex_names_valid(1,2) ex_distinct(13) ex_codeFor(1,2)
      buildDict_conflict_keeps_newest [of "[(code_SPD_1, asc ''in/'' @ ex_n1)]" code_SPD_1 "asc ''in/'' @ ex_n1"
        "statMtime ex_fs" "asc ''in/'' @ ex_n2" ex_n1 ex_n2 "asc ''in''" insertFilter extractNotificationCode False]
      buildDict_conflict_keeps_newest [of "[]" code_SPD_1 "[]" "\<lambda>_. Some (5::nat)" "[]" ex_n1 ex_n2 "asc ''in''"
        insertFilter extractNotificationCode False]
      buildDict_conflict_keeps_newest [of "[]" code_SPD_1 "[]" "\<lambda>_. None :: nat option" "[]" ex_n1 ex_n2 "asc ''in''"
        insertFilter extractNotificationCode False]
    by (simp add: ex_paths)
qed

section \<open>The parent-folder fallback and overlapping prefixes\<close>

text \<open>
  Claim C1. In a file name the pattern finds the longer prefix: \<open>PTP-12.pdf\<close>, \<open>TTP-12.pdf\<close>
  and \<open>SPPK-12.pdf\<close> give the codes PTP-12, TTP-12 and SPPK-12 from both extractors. The
  parent-folder fallback takes the first prefix of the list that occurs in the folder name:
  for \<open>12.pdf\<close> in a folder named PTP or TTP that is the one-letter prefix P, which stands
  before PTP and TTP in the list, and the code is P-12; in a folder named SPPK the code is
  SPPK-12, because SPPK stands before P.
\<close>

theorem extractNotificationCode_folder_fallback_takes_short_prefix:
  "extractNotificationCode (code_PTP @ asc ''/12.pdf'') = Some (code_P @ asc ''-12'')
   \<and> extractNotificationCode (code_TTP @ asc ''/12.pdf'') = Some (code_P @ asc ''-12'')
   \<and> extractNotificationCode (code_SPPK @ asc ''/12.pdf'') = Some (code_SPPK @ asc ''-12'')
   \<and> extractNotificationCode (code_PTP @ asc ''-12.pdf'') = Some (code_PTP @ asc ''-12'')
   \<and> extractNotificationCode (code_TTP @ asc ''-12.pdf'') = Some (code_TTP @ asc ''-12'')
   \<and> extractNotificationCode (code_SPPK @ asc ''-12.pdf'') = Some (code_SPPK @ asc ''-12'')
   \<and> extractZepbCode (code_PTP @ asc ''-12.pdf'') = Some (code_PTP @ asc ''-12'')
   \<and> extractZepbCode (code_TTP @ asc ''-12.pdf'') = Some (code_TTP @ asc ''-12'')"
  by (simp add: str_defs char_defs path_defs code_defs prefixCI_def)

section \<open>The merge loop\<close>


lemma skipPair_effect:
  "skipped (skipPair ix code msg st) = skipped st + 1"
  "processed (skipPair ix code msg st) = processed st"
  "errors (skipPair ix code msg st) = errors st"
  "log (skipPair ix code msg st) = log st @ [msg]"
  "mergeCalls (skipPair ix code msg st) = mergeCalls st"
  "processedNames (skipPair ix code msg st) = processedNames st"
  "canceled (skipPair ix code msg st) = canceled st"
  "total (skipPair ix code msg st) = total st"
  "events (skipPair ix code msg st)
     = events st @ [\<lparr>p_processed = processed st, p_skipped = skipped st + 1, p_total = total st,
                      p_current = ix, p_code = Some code, p_message = msg\<rparr>]"
  by (simp_all add: skipPair_def emitProgress_def)

lemma mergeBody_counts:
  "processed (mergeBody w z out i ent st) + skipped (mergeBody w z out i ent st)
     = processed st + skipped st + 1"
  by (cases ent) (simp add: mergeBody_def skipPair_effect emitProgress_def Let_def split: option.splits)

lemma mergeBody_keeps:
  "canceled (mergeBody w z out i ent st) = canceled st"
  "total (mergeBody w z out i ent st) = total st"
  by (cases ent; simp add: mergeBody_def skipPair_effect emitProgress_def Let_def split: option.splits)+


lemma mergeBody_calls: "length (mergeCalls (mergeBody w z out i ent st)) \<le> length (mergeCalls st) + 1"
  by (cases ent) (simp add: mergeBody_def skipPair_effect emitProgress_def Let_def split: option.splits)

lemma mergeBody_event:
  "\<exists>ev. events (mergeBody w z out i ent st) = events st @ [ev]
         \<and> p_current ev = i + 1 \<and> p_code ev = Some (fst ent)"
  by (cases ent) (simp add: mergeBody_def skipPair_effect emitProgress_def Let_def split: option.splits)

lemma mergeLoop_total: "total (mergeLoop w z out i ents st) = total st"
  by (induction ents arbitrary: i st) (simp_all add: emitProgress_def mergeBody_keeps)


lemma mergeLoop_canceled:
  assumes "mergeCancelRequested w k"
  shows "i \<le> k \<Longrightarrow> k < i + length ents \<Longrightarrow>
         canceled (mergeLoop w z out i ents st)
         \<and> processed (mergeLoop w z out i ents st) + skipped (mergeLoop w z out i ents st)
              \<le> processed st + skipped st + (k - i)
         \<and> length (mergeCalls (mergeLoop w z out i ents st)) \<le> length (mergeCalls st) + (k - i)
         \<and> (\<exists>evs ev. events (mergeLoop w z out i ents st) = events st @ evs @ [ev]
               \<and> (\<forall>x\<in>set evs. p_current x \<le> k \<and> p_code x \<noteq> None)
               \<and> p_current ev \<le> k + 1 \<and> p_code ev = None \<and> p_message ev = CancelMsg)"
proof (induction ents arbitrary: i st)
  case Nil
  then show ?case by simp
next
  case (Cons ent rest)
  show ?case
  proof (cases "mergeCancelRequested w i")
    case True
    let ?ev = "\<lparr>p_processed = processed st, p_skipped = skipped st, p_total = total st,
                p_current = i + 1, p_code = None, p_message = CancelMsg\<rparr>"
    let ?fin = "mergeLoop w z out i (ent # rest) st"
    have fin: "?fin = (st\<lparr>log := log st @ [CancelMsg], canceled := True\<rparr>)\<lparr>events := events st @ [?ev]\<rparr>"
      using True by (simp add: emitProgress_def)
    have 1: "canceled ?fin" unfolding fin by simp
    have 2: "processed ?fin + skipped ?fin \<le> processed st + skipped st + (k - i)" unfolding fin by simp
    have 3: "length (mergeCalls ?fin) \<le> length (mergeCalls st) + (k - i)" unfolding fin by simp
    have "events ?fin = events st @ [] @ [?ev] \<and> (\<forall>x\<in>set []. p_current x \<le> k \<and> p_code x \<noteq> None)
            \<and> p_current ?ev \<le> k + 1 \<and> p_code ?ev = None \<and> p_message ?ev = CancelMsg"
      unfolding fin using Cons.prems(1) by simp
    then have 4: "\<exists>evs ev. events ?fin = events st @ evs @ [ev]
               \<and> (\<forall>x\<in>set evs. p_current x \<le> k \<and> p_code x \<noteq> None)
               \<and> p_current ev \<le> k + 1 \<and> p_code ev = None \<and> p_message ev = CancelMsg"
      by blast
    from 1 2 3 4 show ?thesis by blast
  next
    case False
    with assms have ik: "i \<noteq> k" by auto
    with Cons.prems have lt: "i + 1 \<le> k" "k < (i + 1) + length rest" by simp_all
    let ?b = "mergeBody w z out i ent st"
    have step: "mergeLoop w z out i (ent # rest) st = mergeLoop w z out (i + 1) rest ?b"
      using False by simp
    from Cons.IH [OF lt, of ?b] obtain evs ev where
      c: "canceled (mergeLoop w z out (i + 1) rest ?b)"
      and n: "processed (mergeLoop w z out (i + 1) rest ?b) + skipped (mergeLoop w z out (i + 1) rest ?b)
              \<le> processed ?b + skipped ?b + (k - (i + 1))"
      and m: "length (mergeCalls (mergeLoop w z out (i + 1) rest ?b)) \<le> length (mergeCalls ?b) + (k - (i + 1))"
      and e: "events (mergeLoop w z out (i + 1) rest ?b) = events ?b @ evs @ [ev]"
        "\<forall>x\<in>set evs. p_current x \<le> k \<and> p_code x \<noteq> None"
        "p_current ev \<le> k + 1" "p_code ev = None" "p_message ev = CancelMsg"
      by blast
    from mergeBody_event [of w z out i ent st] obtain ev0 where
      e0: "events ?b = events st @ [ev0]" "p_current ev0 = i + 1" "p_code ev0 = Some (fst ent)"
      by blast
    have ev: "events (mergeLoop w z out (i + 1) rest ?b) = events st @ (ev0 # evs) @ [ev]"
      using e(1) e0(1) by simp
    have all: "\<forall>x\<in>set (ev0 # evs). p_current x \<le> k \<and> p_code x \<noteq> None"
      using e(2) e0(2,3) lt(1) by simp
    have n': "processed (mergeLoop w z out (i + 1) rest ?b) + skipped (mergeLoop w z out (i + 1) rest ?b)
              \<le> processed st + skipped st + (k - i)"
      using n mergeBody_counts [of w z out i ent st] lt(1) by simp
    have m': "length (mergeCalls (mergeLoop w z out (i + 1) rest ?b)) \<le> length (mergeCalls st) + (k - i)"
      using m mergeBody_calls [of w z out i ent st] lt(1) by simp
    show ?thesis unfolding step using c n' m' ev all e(3,4,5) by blast
  qed
qed

lemma mergeLoop_ignores_rest:
  assumes "mergeCancelRequested w k"
  shows "i \<le> k \<Longrightarrow> k < i + length ents \<Longrightarrow> k < i + length ents'
         \<Longrightarrow> take (k - i) ents' = take (k - i) ents
         \<Longrightarrow> mergeLoop w z out i ents' st = mergeLoop w z out i ents st"
proof (induction ents arbitrary: i st ents')
  case Nil
  then show ?case by simp
next
  case (Cons ent rest)
  from Cons.prems(1,3) obtain ent' rest' where e': "ents' = ent' # rest'" by (cases ents') auto
  show ?case
  proof (cases "mergeCancelRequested w i")
    case True
    then show ?thesis by (simp add: e')
  next
    case False
    with assms have ik: "i \<noteq> k" by auto
    with Cons.prems(1) obtain d where d: "k - i = Suc d" by (cases "k - i") auto
    then have d': "k - (i + 1) = d" by simp
    from Cons.prems(4) have "ent' = ent \<and> take d rest' = take d rest"
      by (simp add: e' d)
    then have same: "ent' = ent" "take (k - (i + 1)) rest' = take (k - (i + 1)) rest"
      unfolding d' by simp_all
    have "mergeLoop w z out (i + 1) rest' (mergeBody w z out i ent st)
            = mergeLoop w z out (i + 1) rest (mergeBody w z out i ent st)"
      using Cons.prems ik same(2) by (intro Cons.IH) (simp_all add: e')
    then show ?thesis using False same(1) by (simp add: e')
  qed
qed

lemma mergePdfs_summary:
  assumes "mainFolder a \<noteq> []" "insertFolder a \<noteq> []" "outputFolder a \<noteq> []"
    "ensureDir w (outputFolder a) = None"
  shows "processed (mergePdfs w a) = processed (loopResult w a)"
    "skipped (mergePdfs w a) = skipped (loopResult w a)"
    "total (mergePdfs w a) = total (loopResult w a)"
    "canceled (mergePdfs w a) = canceled (loopResult w a)"
  using assms
  by (simp_all add: mergePdfs_def caughtReturn_def Let_def split: sum.splits)

lemma loopResult_total: "total (loopResult w a) = length (insertDictOf w a)"
  by (simp add: loopResult_def mergeLoop_total)

section \<open>Pairing\<close>

lemma matchedOf_keys: "map fst (matchedOf d other) = filter (\<lambda>k. k \<in> set (map fst other)) (map fst d)"
  by (simp add: matchedOf_def filter_map comp_def case_prod_unfold)

lemma unmatchedOf_keys: "map fst (unmatchedOf d other) = filter (\<lambda>k. k \<notin> set (map fst other)) (map fst d)"
  by (simp add: unmatchedOf_def filter_map comp_def case_prod_unfold)

lemma common_keys_count:
  assumes "distinct ka" "distinct kb"
  shows "length (filter (\<lambda>k. k \<in> set kb) ka) = length (filter (\<lambda>k. k \<in> set ka) kb)"
proof -
  have "length (filter (\<lambda>k. k \<in> set kb) ka) = card ({k. k \<in> set kb} \<inter> set ka)"
    using assms(1) by (rule distinct_length_filter)
  also have "{k. k \<in> set kb} \<inter> set ka = {k. k \<in> set ka} \<inter> set kb" by auto
  also have "card ({k. k \<in> set ka} \<inter> set kb) = length (filter (\<lambda>k. k \<in> set ka) kb)"
    using assms(2) by (rule distinct_length_filter [symmetric])
  finally show ?thesis .
qed

lemma pairing_counts:
  assumes "distinct (map fst A)" "distinct (map fst B)"
  shows "length (matchedOf A B) + length (unmatchedOf A B) = length A"
    and "length (matchedOf A B) + length (unmatchedOf B A) = length B"
proof -
  let ?ka = "map fst A" and ?kb = "map fst B"
  have m: "length (matchedOf A B) = length (filter (\<lambda>k. k \<in> set ?kb) ?ka)"
    using matchedOf_keys [of A B] by (metis length_map)
  have ua: "length (unmatchedOf A B) = length (filter (\<lambda>k. k \<notin> set ?kb) ?ka)"
    using unmatchedOf_keys [of A B] by (metis length_map)
  have ub: "length (unmatchedOf B A) = length (filter (\<lambda>k. k \<notin> set ?ka) ?kb)"
    using unmatchedOf_keys [of B A] by (metis length_map)
  show "length (matchedOf A B) + length (unmatchedOf A B) = length A"
    using sum_length_filter_compl [of "\<lambda>k. k \<in> set ?kb" ?ka] by (simp add: m ua)
  show "length (matchedOf A B) + length (unmatchedOf B A) = length B"
    using sum_length_filter_compl [of "\<lambda>k. k \<in> set ?ka" ?kb] common_keys_count [OF assms]
    by (simp add: m ub)
qed

lemma pairing_disjoint:
  "set (map fst (unmatchedOf A B)) \<inter> set (map fst (matchedOf A B)) = {}"
  "set (map fst (unmatchedOf B A)) \<inter> set (map fst (matchedOf A B)) = {}"
  "set (map fst (unmatchedOf A B)) \<inter> set (map fst (unmatchedOf B A)) = {}"
  unfolding matchedOf_keys unmatchedOf_keys by auto

lemma mergePdfs_unmatched:
  assumes "mainFolder a \<noteq> []" "insertFolder a \<noteq> []" "outputFolder a \<noteq> []"
    "ensureDir w (outputFolder a) = None"
    "processedNames (loopResult w a) = []
     \<or> (\<exists>p. createRegisterDocx w (outputFolder a) (processedNames (loopResult w a)) = Inr p)"
  shows "unmatchedNotifications (mergePdfs w a) = unmatchedOf (insertDictOf w a) (zepbDictOf w a)"
    and "unmatchedZepb (mergePdfs w a) = unmatchedOf (zepbDictOf w a) (insertDictOf w a)"
  using assms by (auto simp: mergePdfs_def Let_def)

text \<open>
  Claim C7. For any two dictionaries (association lists with distinct keys) the matched
  entries and the unmatched notifications partition the notification dictionary, the
  matched entries and the unmatched ZEPB entries count up to the ZEPB dictionary, and the
  three sets of codes are pairwise disjoint. In a run that passes the entry guard both
  dictionaries have distinct keys, \<open>summary.total\<close> is the number of keys of the notification
  dictionary, and (unless the registry generator throws) the two lists the handler returns
  are these unmatched entries.
\<close>

theorem pairing_is_complete:
  "(distinct (map fst A) \<and> distinct (map fst B) \<longrightarrow>
      length (matchedOf A B) + length (unmatchedOf A B) = length A
      \<and> length (matchedOf A B) + length (unmatchedOf B A) = length B
      \<and> set (map fst (unmatchedOf A B)) \<inter> set (map fst (matchedOf A B)) = {}
      \<and> set (map fst (unmatchedOf B A)) \<inter> set (map fst (matchedOf A B)) = {}
      \<and> set (map fst (unmatchedOf A B)) \<inter> set (map fst (unmatchedOf B A)) = {})
   \<and> (wellFormedRun w a \<and> mainFolder a \<noteq> [] \<and> insertFolder a \<noteq> [] \<and> outputFolder a \<noteq> []
       \<and> ensureDir w (outputFolder a) = None \<longrightarrow>
      distinct (map fst (insertDictOf w a)) \<and> distinct (map fst (zepbDictOf w a))
      \<and> total (mergePdfs w a) = length (insertDictOf w a)
      \<and> (processedNames (loopResult w a) = []
           \<or> (\<exists>p. createRegisterDocx w (outputFolder a) (processedNames (loopResult w a)) = Inr p) \<longrightarrow>
          unmatchedNotifications (mergePdfs w a) = unmatchedOf (insertDictOf w a) (zepbDictOf w a)
          \<and> unmatchedZepb (mergePdfs w a) = unmatchedOf (zepbDictOf w a) (insertDictOf w a)))"
proof (intro conjI impI)
  assume d: "distinct (map fst A) \<and> distinct (map fst B)"
  then show "length (matchedOf A B) + length (unmatchedOf A B) = length A"
    using pairing_counts(1) by blast
  from d show "length (matchedOf A B) + length (unmatchedOf B A) = length B"
    using pairing_counts(2) by blast
  show "set (map fst (unmatchedOf A B)) \<inter> set (map fst (matchedOf A B)) = {}"
    by (rule pairing_disjoint(1))
  show "set (map fst (unmatchedOf B A)) \<inter> set (map fst (matchedOf A B)) = {}"
    by (rule pairing_disjoint(2))
  show "set (map fst (unmatchedOf A B)) \<inter> set (map fst (unmatchedOf B A)) = {}"
    by (rule pairing_disjoint(3))
next
  assume g: "wellFormedRun w a \<and> mainFolder a \<noteq> [] \<and> insertFolder a \<noteq> [] \<and> outputFolder a \<noteq> []
       \<and> ensureDir w (outputFolder a) = None"
  show "distinct (map fst (insertDictOf w a))" by (simp add: insertDictOf_def buildDict_distinct)
  show "distinct (map fst (zepbDictOf w a))" by (simp add: zepbDictOf_def buildDict_distinct)
  show "total (mergePdfs w a) = length (insertDictOf w a)"
    using g mergePdfs_summary(3) [of a w] loopResult_total [of w a] by simp
  assume r: "processedNames (loopResult w a) = []
           \<or> (\<exists>p. createRegisterDocx w (outputFolder a) (processedNames (loopResult w a)) = Inr p)"
  show "unmatchedNotifications (mergePdfs w a) = unmatchedOf (insertDictOf w a) (zepbDictOf w a)"
    using g r mergePdfs_unmatched(1) by blast
  show "unmatchedZepb (mergePdfs w a) = unmatchedOf (zepbDictOf w a) (insertDictOf w a)"
    using g r mergePdfs_unmatched(2) by blast
qed

section \<open>Example runs of the merge handler\<close>

lemma ex_basenames:
  "basename (asc ''in/'' @ ex_n2) = ex_n2" "basename (asc ''main/'' @ ex_z1) = ex_z1"
  "basename (asc ''only/'' @ ex_z2) = ex_z2"
  using basename_pathJoin [OF ex_names_valid(2), of "asc ''in''"]
    basename_pathJoin [OF ex_names_valid(4), of "asc ''main''"]
    basename_pathJoin [OF ex_names_valid(5), of "asc ''only''"]
  by (simp_all add: ex_paths)

lemma ex_insertDictOf:
  "fsys w = ex_fs \<Longrightarrow> insertFolder a = asc ''in'' \<Longrightarrow> recursiveInsert a
     \<Longrightarrow> insertDictOf w a = [(code_SPD_1, asc ''in/'' @ ex_n2)]"
  by (simp add: insertDictOf_def ex_insertDict)

lemma ex_zepbDictOf:
  "fsys w = ex_fs \<Longrightarrow> mainFolder a = asc ''main'' \<Longrightarrow> \<not> recursiveMain a
     \<Longrightarrow> zepbDictOf w a = [(code_SPD_1, asc ''main/'' @ ex_z1)]"
  "fsys w = ex_fs \<Longrightarrow> mainFolder a = asc ''only'' \<Longrightarrow> \<not> recursiveMain a
     \<Longrightarrow> zepbDictOf w a = [(code_SPD_2, asc ''only/'' @ ex_z2)]"
  by (simp_all add: zepbDictOf_def ex_zepbDict)

lemmas ex_run_defs = ex_world_def ex_world_registry_fails_def ex_world_canceled_def ex_args_def
  ex_args_unmatched_def

lemma ex_wellFormed:
  "wellFormedRun ex_world ex_args" "wellFormedRun ex_world ex_args_unmatched"
  "wellFormedRun ex_world_registry_fails ex_args" "wellFormedRun ex_world_canceled ex_args"
  by (simp_all add: wellFormedRun_def ex_run_defs ex_trees_valid ex_distinct)

lemma ex_guard:
  "mainFolder ex_args \<noteq> [] \<and> insertFolder ex_args \<noteq> [] \<and> outputFolder ex_args \<noteq> []"
  "mainFolder ex_args_unmatched \<noteq> [] \<and> insertFolder ex_args_unmatched \<noteq> []
     \<and> outputFolder ex_args_unmatched \<noteq> []"
  "outputFolder ex_args = asc ''out''" "outputFolder ex_args_unmatched = asc ''out''"
  "asc ''out'' \<noteq> []"
  by (simp_all add: ex_run_defs asc_def)

lemma ex_dicts:
  "insertDictOf ex_world ex_args = [(code_SPD_1, asc ''in/'' @ ex_n2)]"
  "zepbDictOf ex_world ex_args = [(code_SPD_1, asc ''main/'' @ ex_z1)]"
  "insertDictOf ex_world ex_args_unmatched = [(code_SPD_1, asc ''in/'' @ ex_n2)]"
  "zepbDictOf ex_world ex_args_unmatched = [(code_SPD_2, asc ''only/'' @ ex_z2)]"
  "insertDictOf ex_world_registry_fails ex_args = [(code_SPD_1, asc ''in/'' @ ex_n2)]"
  "zepbDictOf ex_world_registry_fails ex_args = [(code_SPD_1, asc ''main/'' @ ex_z1)]"
  "insertDictOf ex_world_canceled ex_args = [(code_SPD_1, asc ''in/'' @ ex_n2)]"
  "zepbDictOf ex_world_canceled ex_args = [(code_SPD_1, asc ''main/'' @ ex_z1)]"
  by (simp_all add: ex_insertDictOf ex_zepbDictOf ex_run_defs)

lemma ex_nonempty: "ex_n1 \<noteq> []" "ex_n2 \<noteq> []" "ex_z1 \<noteq> []" "ex_z2 \<noteq> []"
  using ex_names_valid by (simp_all add: validName_def)

lemma ex_fields:
  "\<not> mergeCancelRequested ex_world i" "\<not> mergeCancelRequested ex_world_registry_fails i"
  "mergeCancelRequested ex_world_canceled i"
  "mergePdfFiles ex_world np zp outp = None" "mergePdfFiles ex_world_registry_fails np zp outp = None"
  "ensureDir ex_world outp = None" "ensureDir ex_world_registry_fails outp = None"
  "ensureDir ex_world_canceled outp = None"
  "createRegisterDocx ex_world outp names = Inr (outp @ asc ''/registry.docx'')"
  "createRegisterDocx ex_world_registry_fails outp names = Inl (JsErr (asc ''EACCES'') (asc ''Error: EACCES''))"
  by (simp_all add: ex_run_defs)


lemma ex_loop_merged:
  "processedNames (loopResult ex_world_registry_fails ex_args) = [outNameOf (asc ''main/'' @ ex_z1)]"
  "errors (loopResult ex_world_registry_fails ex_args) = []"
  "processed (loopResult ex_world_registry_fails ex_args) = 1"
  "skipped (loopResult ex_world_registry_fails ex_args) = 0"
  "processedNames (loopResult ex_world ex_args) = [outNameOf (asc ''main/'' @ ex_z1)]"
  "processed (loopResult ex_world ex_args) = 1"
  "skipped (loopResult ex_world ex_args) = 0"
  by (simp_all add: loopResult_def ex_dicts ex_distinct mergeBody_def skipPair_def emitProgress_def
        initialState_def ex_basenames ex_marker ex_fields ex_nonempty Let_def)

theorem pairing_is_complete_witness:
  "distinct (map fst [(code_SPD_1, asc ''a.pdf'')])
   \<and> distinct (map fst [(code_SPD_1, asc ''zepb_b.pdf''), (code_SPD_2, asc ''zepb_c.pdf'')])
   \<and> length (matchedOf [(code_SPD_1, asc ''a.pdf'')] [(code_SPD_1, asc ''zepb_b.pdf''), (code_SPD_2, asc ''zepb_c.pdf'')])
       + length (unmatchedOf [(code_SPD_1, asc ''a.pdf'')] [(code_SPD_1, asc ''zepb_b.pdf''), (code_SPD_2, asc ''zepb_c.pdf'')]) = 1
   \<and> length (matchedOf [(code_SPD_1, asc ''a.pdf'')] [(code_SPD_1, asc ''zepb_b.pdf''), (code_SPD_2, asc ''zepb_c.pdf'')])
       + length (unmatchedOf [(code_SPD_1, asc ''zepb_b.pdf''), (code_SPD_2, asc ''zepb_c.pdf'')] [(code_SPD_1, asc ''a.pdf'')]) = 2
   \<and> wellFormedRun ex_world ex_args
   \<and> mainFolder ex_args \<noteq> [] \<and> insertFolder ex_args \<noteq> [] \<and> outputFolder ex_args \<noteq> []
   \<and> ensureDir ex_world (outputFolder ex_args) = None
   \<and> total (mergePdfs ex_world ex_args) = 1
   \<and> unmatchedNotifications (mergePdfs ex_world ex_args) = []
   \<and> unmatchedZepb (mergePdfs ex_world ex_args) = []"
  using pairing_is_complete [of "[(code_SPD_1, asc ''a.pdf'')]"
      "[(code_SPD_1, asc ''zepb_b.pdf''), (code_SPD_2, asc ''zepb_c.pdf'')]" ex_world ex_args]
    ex_wellFormed(1) ex_guard(1) ex_fields(6,9) ex_distinct(7)
  by (simp add: ex_dicts unmatchedOf_def)

section \<open>Codes without a ZEPB document\<close>





section \<open>A failing registry generator\<close>

text \<open>
  The claim C3 as it is written fails on the example run whose registry generator throws:
  the loop ends with no error entry and the handler returns one.
\<close>

theorem registry_failure_is_reported_counterexample:
  "processedNames (loopResult ex_world_registry_fails ex_args) = [outNameOf (asc ''main/'' @ ex_z1)]
   \<and> createRegisterDocx ex_world_registry_fails (outputFolder ex_args)
        (processedNames (loopResult ex_world_registry_fails ex_args))
        = Inl (JsErr (asc ''EACCES'') (asc ''Error: EACCES''))
   \<and> errors (loopResult ex_world_registry_fails ex_args) = []
   \<and> errors (mergePdfs ex_world_registry_fails ex_args) = [RunErrorMsg (asc ''EACCES'')]
   \<and> processed (mergePdfs ex_world_registry_fails ex_args) = 1
   \<and> skipped (mergePdfs ex_world_registry_fails ex_args) = 0
   \<and> registry (mergePdfs ex_world_registry_fails ex_args) = None"
  by (simp add: ex_loop_merged ex_fields ex_guard mergePdfs_def caughtReturn_def errText_def Let_def asc_def)

text \<open>
  Claim C3, amended. When the loop has ended with at least one merged file and the registry
  generator throws, the handler's \<open>catch\<close> takes over: \<open>processed\<close>, \<open>skipped\<close>, \<open>total\<close> and
  \<open>canceled\<close> are what they were at the end of the loop and the returned registry is
  \<open>null\<close>; one entry, the run error with the text of the thrown error, is appended to
  \<open>errors\<close> and to \<open>log\<close>, and the two unmatched lists of the return value are empty.
\<close>

theorem registry_failure_is_reported:
  "wellFormedRun w a \<and> mainFolder a \<noteq> [] \<and> insertFolder a \<noteq> [] \<and> outputFolder a \<noteq> []
   \<and> ensureDir w (outputFolder a) = None
   \<and> processedNames (loopResult w a) \<noteq> []
   \<and> createRegisterDocx w (outputFolder a) (processedNames (loopResult w a)) = Inl err \<longrightarrow>
     processed (mergePdfs w a) = processed (loopResult w a)
     \<and> skipped (mergePdfs w a) = skipped (loopResult w a)
     \<and> total (mergePdfs w a) = total (loopResult w a)
     \<and> canceled (mergePdfs w a) = canceled (loopResult w a)
     \<and> errors (mergePdfs w a) = errors (loopResult w a) @ [RunErrorMsg (errText err)]
     \<and> log (mergePdfs w a) = log (loopResult w a) @ [RunErrorMsg (errText err)]
     \<and> registry (mergePdfs w a) = None
     \<and> unmatchedNotifications (mergePdfs w a) = []
     \<and> unmatchedZepb (mergePdfs w a) = []"
  by (simp add: mergePdfs_def caughtReturn_def Let_def)

theorem registry_failure_is_reported_witness:
  "wellFormedRun ex_world_registry_fails ex_args
   \<and> mainFolder ex_args \<noteq> [] \<and> insertFolder ex_args \<noteq> [] \<and> outputFolder ex_args \<noteq> []
   \<and> ensureDir ex_world_registry_fails (outputFolder ex_args) = None
   \<and> processedNames (loopResult ex_world_registry_fails ex_args) \<noteq> []
   \<and> createRegisterDocx ex_world_registry_fails (outputFolder ex_args)
        (processedNames (loopResult ex_world_registry_fails ex_args))
        = Inl (JsErr (asc ''EACCES'') (asc ''Error: EACCES''))
   \<and> processed (mergePdfs ex_world_registry_fails ex_args) = 1
   \<and> errors (mergePdfs ex_world_registry_fails ex_args)
        = [RunErrorMsg (errText (JsErr (asc ''EACCES'') (asc ''Error: EACCES'')))]
   \<and> registry (mergePdfs ex_world_registry_fails ex_args) = None"
  using registry_failure_is_reported [of ex_world_registry_fails ex_args "JsErr (asc ''EACCES'') (asc ''Error: EACCES'')"]
    ex_wellFormed(3) ex_guard(1) ex_fields(7,10) ex_loop_merged(1,2,3)
  by simp

section \<open>Cancellation of the merge loop\<close>

text \<open>
  Claim C6. In a run that passes the entry guard, let the cancellation flag be set when the
  checkpoint of iteration \<open>k\<close> reads it, \<open>k\<close> being an index of the loop. Then the run is
  reported as canceled and \<open>processed + skipped\<close> is at most \<open>k\<close>; the merge collaborator
  is called at most \<open>k\<close> times; the progress events are those of iterations before \<open>k\<close>
  (they carry a code and a position of at most \<open>k\<close>) followed by the one cancellation event,
  sent at an iteration no later than \<open>k\<close>; and the state in which the loop ends is the same
  for every list of pairs that agrees with the dictionary on the first \<open>k\<close> pairs, so the
  pairs from index \<open>k\<close> on have no effect at all.
\<close>

theorem merge_cancellation_bound:
  "wellFormedRun w a \<and> mainFolder a \<noteq> [] \<and> insertFolder a \<noteq> [] \<and> outputFolder a \<noteq> []
   \<and> ensureDir w (outputFolder a) = None
   \<and> k < length (insertDictOf w a) \<and> mergeCancelRequested w k \<longrightarrow>
     canceled (mergePdfs w a)
     \<and> processed (mergePdfs w a) + skipped (mergePdfs w a) \<le> k
     \<and> length (mergeCalls (loopResult w a)) \<le> k
     \<and> (\<exists>evs ev. events (loopResult w a) = evs @ [ev]
           \<and> (\<forall>x\<in>set evs. p_current x \<le> k \<and> p_code x \<noteq> None)
           \<and> p_current ev \<le> k + 1 \<and> p_code ev = None \<and> p_message ev = CancelMsg)
     \<and> (\<forall>pairs. k < length pairs \<and> take k pairs = take k (insertDictOf w a) \<longrightarrow>
           mergeLoop w (zepbDictOf w a) (outputFolder a) 0 pairs
               (initialState\<lparr>total := length (insertDictOf w a)\<rparr>)
             = loopResult w a)"
proof (intro impI)
  assume g: "wellFormedRun w a \<and> mainFolder a \<noteq> [] \<and> insertFolder a \<noteq> [] \<and> outputFolder a \<noteq> []
   \<and> ensureDir w (outputFolder a) = None
   \<and> k < length (insertDictOf w a) \<and> mergeCancelRequested w k"
  then have f: "mergeCancelRequested w k" and k: "k < 0 + length (insertDictOf w a)" by simp_all
  let ?st = "initialState\<lparr>total := length (insertDictOf w a)\<rparr>"
  note s = mergePdfs_summary [of a w]
  from mergeLoop_canceled [OF f le0 k, of "zepbDictOf w a" "outputFolder a" ?st]
  have c: "canceled (loopResult w a)"
    and n: "processed (loopResult w a) + skipped (loopResult w a) \<le> k"
    and m: "length (mergeCalls (loopResult w a)) \<le> k"
    and e: "\<exists>evs ev. events (loopResult w a) = evs @ [ev]
           \<and> (\<forall>x\<in>set evs. p_current x \<le> k \<and> p_code x \<noteq> None)
           \<and> p_current ev \<le> k + 1 \<and> p_code ev = None \<and> p_message ev = CancelMsg"
    by (simp_all add: loopResult_def initialState_def)
  have r: "\<forall>pairs. k < length pairs \<and> take k pairs = take k (insertDictOf w a) \<longrightarrow>
           mergeLoop w (zepbDictOf w a) (outputFolder a) 0 pairs ?st = loopResult w a"
  proof (intro allI impI)
    fix pairs
    assume p: "k < length pairs \<and> take k pairs = take k (insertDictOf w a)"
    from mergeLoop_ignores_rest [OF f le0 k, of pairs "zepbDictOf w a" "outputFolder a" ?st] p
    show "mergeLoop w (zepbDictOf w a) (outputFolder a) 0 pairs ?st = loopResult w a"
      by (simp add: loopResult_def)
  qed
  from g s c n m e r show "canceled (mergePdfs w a)
     \<and> processed (mergePdfs w a) + skipped (mergePdfs w a) \<le> k
     \<and> length (mergeCalls (loopResult w a)) \<le> k
     \<and> (\<exists>evs ev. events (loopResult w a) = evs @ [ev]
           \<and> (\<forall>x\<in>set evs. p_current x \<le> k \<and> p_code x \<noteq> None)
           \<and> p_current ev \<le> k + 1 \<and> p_code ev = None \<and> p_message ev = CancelMsg)
     \<and> (\<forall>pairs. k < length pairs \<and> take k pairs = take k (insertDictOf w a) \<longrightarrow>
           mergeLoop w (zepbDictOf w a) (outputFolder a) 0 pairs ?st = loopResult w a)"
    by simp
qed

theorem merge_cancellation_bound_witness:
  "wellFormedRun ex_world_canceled ex_args
   \<and> mainFolder ex_args \<noteq> [] \<and> insertFolder ex_args \<noteq> [] \<and> outputFolder ex_args \<noteq> []
   \<and> ensureDir ex_world_canceled (outputFolder ex_args) = None
   \<and> 0 < length (insertDictOf ex_world_canceled ex_args) \<and> mergeCancelRequested ex_world_canceled 0
   \<and> canceled (mergePdfs ex_world_canceled ex_args)
   \<and> processed (mergePdfs ex_world_canceled ex_args) + skipped (mergePdfs ex_world_canceled ex_args) = 0
   \<and> mergeCalls (loopResult ex_world_canceled ex_args) = []"
  using merge_cancellation_bound [of ex_world_canceled ex_args 0]
    ex_wellFormed(4) ex_guard(1) ex_fields(3,8)
  by (simp add: ex_dicts)

section \<open>The compress pipeline and its cancellation flag\<close>

lemma recordFile_files: "c_files (recordFile gs q fname outp fr res) = c_files res @ [fr]"
  by (simp add: recordFile_def Let_def)

lemma compressFilesLoop_attempts_all:
  "map name (c_files (fst (compressFilesLoop w out q gs cb i pdfs rs)))
     = map name (c_files (fst rs))
       @ map (\<lambda>p. name (compressSinglePdf w p (pathJoin out (basename p)) q gs)) pdfs"
  by (induction pdfs arbitrary: i rs) (simp_all add: Let_def recordFile_files)

lemma compressPdfsLoop_attempts_all:
  "map name (c_files (fst (compressPdfsLoop w inp out q gs cb i pdfs rs)))
     = map name (c_files (fst rs))
       @ map (\<lambda>f. name (compressSinglePdf w (pathJoin inp f) (pathJoin out f) q gs)) pdfs"
  by (induction pdfs arbitrary: i rs) (simp_all add: Let_def recordFile_files)

lemma ex_compress_paths:
  "basename (asc ''a.pdf'') = asc ''a.pdf''" "basename (asc ''b.pdf'') = asc ''b.pdf''"
  "pathJoin (asc ''in'') (asc ''a.pdf'') = asc ''in/a.pdf''"
  "pathJoin (asc ''in'') (asc ''b.pdf'') = asc ''in/b.pdf''"
  "pathJoin (asc ''out'') (asc ''a.pdf'') = asc ''out/a.pdf''"
  "pathJoin (asc ''out'') (asc ''b.pdf'') = asc ''out/b.pdf''"
  "endsWith (toLowerCase (asc ''a.pdf'')) (asc ''.pdf'')"
  "endsWith (toLowerCase (asc ''b.pdf'')) (asc ''.pdf'')"
  "asc ''in'' \<noteq> []" "asc ''out'' \<noteq> []"
  "basename (asc ''in/a.pdf'') = asc ''a.pdf''" "basename (asc ''in/b.pdf'') = asc ''b.pdf''"
  by (simp_all add: asc_def char_defs path_defs endsWith_def)

lemma ex_cfields:
  "statIsFile ex_cworld p = Some True" "c_ensureDir ex_cworld p = None" "pathExists ex_cworld p"
  "readdirNames ex_cworld p = Inr [asc ''a.pdf'', asc ''b.pdf'']" "findGhostscript ex_cworld = None"
  "compressSinglePdf ex_cworld p outp q gs = ex_result p" "compressCancelRequested ex_cworld i"
  by (simp_all add: ex_cworld_def)

text \<open>
  Claim C4. The loops of \<open>compressFiles\<close> and \<open>compressPdfs\<close> never read the cancellation
  flag; only the callback of the handlers does, and it only leaves out the progress event.
  In the example the flag is set while the first file is being compressed, so that every
  call of the callback finds it set: both files are compressed all the same (two results,
  \<open>processed\<close> is 2), and the only event sent is the final one.
\<close>

theorem compress_ignores_cancellation:
  "compressCancelRequested ex_cworld 1
   \<and> map name (c_files (fst (compressFilesHandler ex_cworld [asc ''a.pdf'', asc ''b.pdf''] (asc ''out'') 30)))
       = [asc ''a.pdf'', asc ''b.pdf'']
   \<and> c_processed (fst (compressFilesHandler ex_cworld [asc ''a.pdf'', asc ''b.pdf''] (asc ''out'') 30)) = 2
   \<and> c_total (fst (compressFilesHandler ex_cworld [asc ''a.pdf'', asc ''b.pdf''] (asc ''out'') 30)) = 2
   \<and> snd (compressFilesHandler ex_cworld [asc ''a.pdf'', asc ''b.pdf''] (asc ''out'') 30)
       = [CompressComplete 2 2
            [FinishedMsg EngineFallback, GotPdfsMsg 2, GsMissingMsg,
             FbDoneMsg (asc ''a.pdf'') (asc ''out/a.pdf''), FbDoneMsg (asc ''b.pdf'') (asc ''out/b.pdf'')]]
   \<and> map name (c_files (fst (compressPdfsHandler ex_cworld (asc ''in'') (asc ''out'') 30)))
       = [asc ''a.pdf'', asc ''b.pdf'']
   \<and> c_processed (fst (compressPdfsHandler ex_cworld (asc ''in'') (asc ''out'') 30)) = 2
   \<and> snd (compressPdfsHandler ex_cworld (asc ''in'') (asc ''out'') 30)
       = [CompressComplete 2 2
            [FinishedMsg EngineFallback, FoundPdfsMsg 2 (asc ''in''), GsMissingMsg,
             FbDoneMsg (asc ''a.pdf'') (asc ''out/a.pdf''), FbDoneMsg (asc ''b.pdf'') (asc ''out/b.pdf'')]]"
  by (simp add: compressFilesHandler_def compressFiles_def compressPdfsHandler_def compressPdfs_def
        compressProgressCallback_def keepPdf_def recordFile_def emptyResult_def engineOf_def
        engineLog_def ex_result_def ex_cfields ex_compress_paths Let_def)

end
